theory Spec2Isabelle
  imports
    Complex_Main
    "HOL-Library.Char_ord"
    "HOL-Library.List_Lexorder"
    "HOL-Library.Multiset"
begin

section \<open>Strings\<close>

text \<open>
  A JavaScript string is modelled as a \<^typ>\<open>string\<close>, one \<^typ>\<open>char\<close> per code unit.
  The model is of strings whose code units are below 256, the range U+0000 to U+00FF
  (so \<open>CHR 0xE1\<close> is the letter a with acute accent of the source's Spanish messages).
  An optional property (\<open>field?: string\<close>, also \<open>null\<close>) is a \<^typ>\<open>string option\<close>.

  \<open>toLowerCase\<close> maps the capital letters of that range, A to Z, U+00C0 to U+00D6 and
  U+00D8 to U+00DE, to the code unit 32 above, and nothing else. \<open>toUpperCase\<close>
  maps the small letters a to z, U+00E0 to U+00F6 and U+00F8 to U+00FE to the code unit
  32 below; three code units leave the range: U+00DF becomes \<open>SS\<close>, U+00B5 becomes
  U+039C and U+00FF becomes U+0178. Its result is therefore a list of code points;
  the source only compares the results of \<open>toUpperCase\<close>.
\<close>

definition upper_letters :: string where
  "upper_letters =
     ''ABCDEFGHIJKLMNOPQRSTUVWXYZ''
     @ [CHR 0xC0, CHR 0xC1, CHR 0xC2, CHR 0xC3, CHR 0xC4, CHR 0xC5, CHR 0xC6, CHR 0xC7,
        CHR 0xC8, CHR 0xC9, CHR 0xCA, CHR 0xCB, CHR 0xCC, CHR 0xCD, CHR 0xCE, CHR 0xCF,
        CHR 0xD0, CHR 0xD1, CHR 0xD2, CHR 0xD3, CHR 0xD4, CHR 0xD5, CHR 0xD6, CHR 0xD8,
        CHR 0xD9, CHR 0xDA, CHR 0xDB, CHR 0xDC, CHR 0xDD, CHR 0xDE]"

definition lower_letters :: string where
  "lower_letters =
     ''abcdefghijklmnopqrstuvwxyz''
     @ [CHR 0xE0, CHR 0xE1, CHR 0xE2, CHR 0xE3, CHR 0xE4, CHR 0xE5, CHR 0xE6, CHR 0xE7,
        CHR 0xE8, CHR 0xE9, CHR 0xEA, CHR 0xEB, CHR 0xEC, CHR 0xED, CHR 0xEE, CHR 0xEF,
        CHR 0xF0, CHR 0xF1, CHR 0xF2, CHR 0xF3, CHR 0xF4, CHR 0xF5, CHR 0xF6, CHR 0xF8,
        CHR 0xF9, CHR 0xFA, CHR 0xFB, CHR 0xFC, CHR 0xFD, CHR 0xFE]"

definition toLowerChar :: "char \<Rightarrow> char" where
  "toLowerChar c = (case map_of (zip upper_letters lower_letters) c of Some d \<Rightarrow> d | None \<Rightarrow> c)"

definition toLowerCase :: "string \<Rightarrow> string" where
  "toLowerCase s = map toLowerChar s"

definition code_points_of :: "string \<Rightarrow> nat list" where
  "code_points_of s = map of_char s"

definition toUpperChar :: "char \<Rightarrow> nat list" where
  "toUpperChar c =
     (if c = CHR 0xDF then [0x53, 0x53]
      else if c = CHR 0xB5 then [0x39C]
      else if c = CHR 0xFF then [0x178]
      else (case map_of (zip lower_letters upper_letters) c of
              Some d \<Rightarrow> [of_char d]
            | None \<Rightarrow> [of_char c]))"

definition toUpperCase :: "string \<Rightarrow> nat list" where
  "toUpperCase s = concat (map toUpperChar s)"

definition is_space :: "char \<Rightarrow> bool" where
  "is_space c = (c \<in> set [CHR '' '', CHR 0x09, CHR 0x0A, CHR 0x0B, CHR 0x0C, CHR 0x0D, CHR 0xA0])"

definition trim :: "string \<Rightarrow> string" where
  "trim s = rev (dropWhile is_space (rev (dropWhile is_space s)))"

fun startsWith :: "string \<Rightarrow> string \<Rightarrow> bool" where
  "startsWith s [] = True"
| "startsWith [] (p # ps) = False"
| "startsWith (c # cs) (p # ps) = (c = p \<and> startsWith cs ps)"

text \<open>\<open>s.includes(p)\<close>: \<open>p\<close> occurs in \<open>s\<close> as a contiguous substring.\<close>

fun str_includes :: "string \<Rightarrow> string \<Rightarrow> bool" where
  "str_includes [] p = (p = [])"
| "str_includes (c # cs) p = (startsWith (c # cs) p \<or> str_includes cs p)"

text \<open>\<open>s.replace(p, r)\<close> with a string pattern: the first occurrence only.\<close>

fun replace_first :: "string \<Rightarrow> string \<Rightarrow> string \<Rightarrow> string" where
  "replace_first p r [] = (if p = [] then r else [])"
| "replace_first p r (c # cs) =
     (if startsWith (c # cs) p then r @ drop (length p) (c # cs)
      else c # replace_first p r cs)"

text \<open>Truthiness of an optional string: \<open>undefined\<close>, \<open>null\<close> and \<open>''\<close> are falsy.\<close>

definition truthy :: "string option \<Rightarrow> bool" where
  "truthy x = (case x of None \<Rightarrow> False | Some s \<Rightarrow> s \<noteq> [])"

text \<open>\<open>x || d\<close> on an optional string.\<close>

definition or_else :: "string option \<Rightarrow> string \<Rightarrow> string" where
  "or_else x d = (case x of None \<Rightarrow> d | Some s \<Rightarrow> (if s = [] then d else s))"

section \<open>The external record (src/services/asofix-api.ts, AsofixVehicle)\<close>

text \<open>
  Numbers are rationals: the filter only compares and defaults them, which is exact on
  finite doubles. The elements of \<open>images\<close> and \<open>colors\<close> are objects with one optional
  string property (\<open>url\<close>, \<open>name\<close>), modelled by that property. \<open>brand_id\<close> and
  \<open>model_id\<close> are not in the interface; the reconciler reads them through
  \<open>(vehicle as any)\<close>, as JSON values.
\<close>

datatype jval = JNull | JBool bool | JNum rat | JStr string | JArr "jval list"
  | JObj "(string \<times> jval) list"


record Stock =
  stock_status :: "string option"
  branch_office_name :: "string option"
  location_name :: "string option"

record Price =
  list_price :: "rat option"
  currency_name :: "string option"

record AsofixVehicle =
  av_id :: string
  brand_name :: "string option"
  model_name :: "string option"
  version :: "string option"
  description :: "string option"
  year :: "rat option"
  kilometres :: "rat option"
  license_plate :: "string option"
  origin :: "string option"
  car_condition :: "string option"
  car_transmission :: "string option"
  car_fuel_type :: "string option"
  car_segment :: "string option"
  price :: "Price option"
  colors :: "string option list option"
  stocks :: "Stock list option"
  images :: "string option list option"
  brand_id :: "jval option"
  model_id :: "jval option"

section \<open>Filter Evaluator (src/services/vehicle-filters.ts)\<close>

text \<open>
  \<open>filterConfig\<close> is imported from \<open>config/filters\<close>; its four fields are a parameter
  of the model. \<open>numStr\<close> is the conversion of a number to a string inside a template
  literal.
\<close>

record FilterConfig =
  blockedBranchOffices :: "string list"
  minPrice :: rat
  blockedStatuses :: "string list"
  requireImages :: bool

record OmitResult =
  omit :: bool
  reason :: "string option"

definition is_active_stock :: "Stock \<Rightarrow> bool" where
  "is_active_stock s =
     (case stock_status s of None \<Rightarrow> False
      | Some t \<Rightarrow> t \<noteq> [] \<and> toUpperCase t = code_points_of ''ACTIVO'')"

text \<open>\<open>vehicle.stocks?.find(...)\<close>: the first stock entry with an active status.\<close>

definition find_active_stock :: "AsofixVehicle \<Rightarrow> Stock option" where
  "find_active_stock v = (case stocks v of None \<Rightarrow> None | Some ss \<Rightarrow> find is_active_stock ss)"

text \<open>The loop over \<open>filterConfig.blockedBranchOffices\<close>, returning at the first hit.\<close>

fun blocked_office_loop :: "Stock \<Rightarrow> string list \<Rightarrow> string option" where
  "blocked_office_loop s [] = None"
| "blocked_office_loop s (blockedOffice # rest) =
     (let locationName = toLowerCase (or_else (location_name s) []);
          branchName = toLowerCase (or_else (branch_office_name s) []);
          blockedLower = toLowerCase blockedOffice
      in if str_includes locationName blockedLower then
           Some (''Concesionaria bloqueada: '' @ or_else (location_name s) ''N/A''
                 @ '' (filtro: '' @ blockedOffice @ '', campo: location_name)'')
         else if str_includes branchName blockedLower then
           Some (''Concesionaria bloqueada: '' @ or_else (branch_office_name s) ''N/A''
                 @ '' (filtro: '' @ blockedOffice @ '', campo: branch_office_name)'')
         else blocked_office_loop s rest)"

text \<open>\<open>parseFloat(String(vehicle.price?.list_price || 0))\<close>.\<close>

definition list_price_of :: "AsofixVehicle \<Rightarrow> rat" where
  "list_price_of v =
     (case price v of None \<Rightarrow> 0
      | Some p \<Rightarrow> (case list_price p of None \<Rightarrow> 0 | Some x \<Rightarrow> x))"

text \<open>The loop over \<open>filterConfig.blockedStatuses\<close>, returning at the first hit.\<close>

fun blocked_status_loop :: "Stock \<Rightarrow> string list \<Rightarrow> string option" where
  "blocked_status_loop s [] = None"
| "blocked_status_loop s (blockedStatus # rest) =
     (if toLowerCase (or_else (stock_status s) []) = toLowerCase blockedStatus then
        Some (''Estado bloqueado: '' @ or_else (stock_status s) [] @ '' (filtro: ''
              @ blockedStatus @ '')'')
      else blocked_status_loop s rest)"

definition blank_plate :: "string option \<Rightarrow> bool" where
  "blank_plate lp = (\<not> truthy lp \<or> length (trim (or_else lp [])) = 0)"

definition image_url_present :: "string option \<Rightarrow> bool" where
  "image_url_present u = (truthy u \<and> length (trim (or_else u [])) > 0)"

definition hasImages :: "AsofixVehicle \<Rightarrow> bool" where
  "hasImages v =
     (case images v of None \<Rightarrow> False
      | Some imgs \<Rightarrow> length imgs > 0 \<and> list_ex image_url_present imgs)"

definition reason_no_stock :: string where
  "reason_no_stock = ''No tiene stock activo''"

definition reason_price :: "(rat \<Rightarrow> string) \<Rightarrow> rat \<Rightarrow> rat \<Rightarrow> string" where
  "reason_price numStr p m =
     ''Precio ('' @ numStr p @ '') menor o igual al m'' @ CHR 0xED # ''nimo permitido (''
     @ numStr m @ '')''"

definition reason_plate :: string where
  "reason_plate = ''License plate es NULL o vac'' @ CHR 0xED # ''o''"

definition reason_images :: string where
  "reason_images = ''No tiene im'' @ CHR 0xE1 # ''genes asociadas (REQUIRE_IMAGES=true)''"

definition shouldOmitVehicle :: "(rat \<Rightarrow> string) \<Rightarrow> FilterConfig \<Rightarrow> AsofixVehicle \<Rightarrow> OmitResult" where
  "shouldOmitVehicle numStr cfg vehicle =
     (case find_active_stock vehicle of
        None \<Rightarrow> \<lparr>omit = True, reason = Some reason_no_stock\<rparr>
      | Some activeStock \<Rightarrow>
          (case blocked_office_loop activeStock (blockedBranchOffices cfg) of
             Some r \<Rightarrow> \<lparr>omit = True, reason = Some r\<rparr>
           | None \<Rightarrow>
               if list_price_of vehicle \<le> minPrice cfg then
                 \<lparr>omit = True,
                  reason = Some (reason_price numStr (list_price_of vehicle) (minPrice cfg))\<rparr>
               else
                 (case blocked_status_loop activeStock (blockedStatuses cfg) of
                    Some r \<Rightarrow> \<lparr>omit = True, reason = Some r\<rparr>
                  | None \<Rightarrow>
                      if blank_plate (license_plate vehicle) then
                        \<lparr>omit = True, reason = Some reason_plate\<rparr>
                      else if requireImages cfg \<and> \<not> hasImages vehicle then
                        \<lparr>omit = True, reason = Some reason_images\<rparr>
                      else \<lparr>omit = False, reason = None\<rparr>)))"


subsection \<open>The six checks, in the words of the specification\<close>

text \<open>
  The checks of section 4.1 of the specification, each as a predicate of its own, and
  the first one that fails in the fixed order. Check (2) consults the location name of
  the active offer and, as fallback when the offer has no location name, its branch
  office name. The status comparison of check (4) lowers both sides, as the source
  does.
\<close>

datatype check = NoActiveStock | BlockedLocation | PriceTooLow | BlockedStatus | MissingPlate | NoImages

definition location_hit :: "Stock \<Rightarrow> string \<Rightarrow> bool" where
  "location_hit s b = str_includes (toLowerCase (or_else (location_name s) [])) (toLowerCase b)"

definition branch_hit :: "Stock \<Rightarrow> string \<Rightarrow> bool" where
  "branch_hit s b = str_includes (toLowerCase (or_else (branch_office_name s) [])) (toLowerCase b)"

definition fallback_hit :: "Stock \<Rightarrow> string \<Rightarrow> bool" where
  "fallback_hit s b = (if truthy (location_name s) then location_hit s b else branch_hit s b)"

definition fails_location :: "FilterConfig \<Rightarrow> Stock \<Rightarrow> bool" where
  "fails_location cfg s = list_ex (fallback_hit s) (blockedBranchOffices cfg)"

definition fails_price :: "FilterConfig \<Rightarrow> AsofixVehicle \<Rightarrow> bool" where
  "fails_price cfg v = (\<not> list_price_of v > minPrice cfg)"

definition status_hit :: "Stock \<Rightarrow> string \<Rightarrow> bool" where
  "status_hit s b = (toLowerCase (or_else (stock_status s) []) = toLowerCase b)"

definition fails_status :: "FilterConfig \<Rightarrow> Stock \<Rightarrow> bool" where
  "fails_status cfg s = list_ex (status_hit s) (blockedStatuses cfg)"

definition fails_plate :: "AsofixVehicle \<Rightarrow> bool" where
  "fails_plate v = (case license_plate v of None \<Rightarrow> True | Some p \<Rightarrow> trim p = [])"

definition nonblank_url :: "string option \<Rightarrow> bool" where
  "nonblank_url u = (case u of None \<Rightarrow> False | Some s \<Rightarrow> trim s \<noteq> [])"

definition fails_images :: "FilterConfig \<Rightarrow> AsofixVehicle \<Rightarrow> bool" where
  "fails_images cfg v =
     (requireImages cfg \<and> \<not> list_ex nonblank_url (case images v of None \<Rightarrow> [] | Some imgs \<Rightarrow> imgs))"

definition first_failing_check :: "FilterConfig \<Rightarrow> AsofixVehicle \<Rightarrow> check option" where
  "first_failing_check cfg v =
     (case find_active_stock v of
        None \<Rightarrow> Some NoActiveStock
      | Some s \<Rightarrow>
          if fails_location cfg s then Some BlockedLocation
          else if fails_price cfg v then Some PriceTooLow
          else if fails_status cfg s then Some BlockedStatus
          else if fails_plate v then Some MissingPlate
          else if fails_images cfg v then Some NoImages
          else None)"

text \<open>
  The text reported for a check that fails on the active offer \<open>s\<close>. For check (2) it
  names the first configured office that is found, and the field it was found in.
\<close>

definition location_reason :: "Stock \<Rightarrow> string list \<Rightarrow> string" where
  "location_reason s bs =
     (case find (fallback_hit s) bs of
        None \<Rightarrow> []
      | Some b \<Rightarrow>
          if location_hit s b then
            ''Concesionaria bloqueada: '' @ or_else (location_name s) ''N/A''
            @ '' (filtro: '' @ b @ '', campo: location_name)''
          else
            ''Concesionaria bloqueada: '' @ or_else (branch_office_name s) ''N/A''
            @ '' (filtro: '' @ b @ '', campo: branch_office_name)'')"

definition status_reason :: "Stock \<Rightarrow> string list \<Rightarrow> string" where
  "status_reason s bs =
     (case find (status_hit s) bs of
        None \<Rightarrow> []
      | Some b \<Rightarrow> ''Estado bloqueado: '' @ or_else (stock_status s) [] @ '' (filtro: '' @ b @ '')'')"

definition reason_of_check :: "(rat \<Rightarrow> string) \<Rightarrow> FilterConfig \<Rightarrow> AsofixVehicle \<Rightarrow> check \<Rightarrow> string" where
  "reason_of_check numStr cfg v k =
     (case k of
        NoActiveStock \<Rightarrow> reason_no_stock
      | BlockedLocation \<Rightarrow>
          (case find_active_stock v of None \<Rightarrow> []
           | Some s \<Rightarrow> location_reason s (blockedBranchOffices cfg))
      | PriceTooLow \<Rightarrow> reason_price numStr (list_price_of v) (minPrice cfg)
      | BlockedStatus \<Rightarrow>
          (case find_active_stock v of None \<Rightarrow> []
           | Some s \<Rightarrow> status_reason s (blockedStatuses cfg))
      | MissingPlate \<Rightarrow> reason_plate
      | NoImages \<Rightarrow> reason_images)"

definition verdict_of_check :: "(rat \<Rightarrow> string) \<Rightarrow> FilterConfig \<Rightarrow> AsofixVehicle \<Rightarrow> check option \<Rightarrow> OmitResult" where
  "verdict_of_check numStr cfg v c =
     (case c of
        None \<Rightarrow> \<lparr>omit = False, reason = None\<rparr>
      | Some k \<Rightarrow> \<lparr>omit = True, reason = Some (reason_of_check numStr cfg v k)\<rparr>)"

text \<open>
  The branch office name is consulted as fallback only: the active offer has no
  location name, or every configured office found in its branch office name is also
  found in its location name.
\<close>

definition branch_only_as_fallback :: "FilterConfig \<Rightarrow> AsofixVehicle \<Rightarrow> bool" where
  "branch_only_as_fallback cfg v =
     (case find_active_stock v of
        None \<Rightarrow> True
      | Some s \<Rightarrow>
          \<not> truthy (location_name s)
          \<or> list_all (\<lambda>b. branch_hit s b \<longrightarrow> location_hit s b) (blockedBranchOffices cfg))"

text \<open>
  Check (4) read literally, without case folding: the status of the active offer is
  one of the configured blocked statuses.
\<close>

definition fails_status_exact :: "FilterConfig \<Rightarrow> Stock \<Rightarrow> bool" where
  "fails_status_exact cfg s = (or_else (stock_status s) [] \<in> set (blockedStatuses cfg))"

definition first_failing_check_exact :: "FilterConfig \<Rightarrow> AsofixVehicle \<Rightarrow> check option" where
  "first_failing_check_exact cfg v =
     (case find_active_stock v of
        None \<Rightarrow> Some NoActiveStock
      | Some s \<Rightarrow>
          if fails_location cfg s then Some BlockedLocation
          else if fails_price cfg v then Some PriceTooLow
          else if fails_status_exact cfg s then Some BlockedStatus
          else if fails_plate v then Some MissingPlate
          else if fails_images cfg v then Some NoImages
          else None)"


section \<open>Local store (database/final_schema.sql)\<close>

text \<open>
  The \<open>additional_data\<close> column as the three cases the source
  distinguishes in \<open>row.additional_data ? JSON.parse(row.additional_data) : {}\<close> inside
  \<open>try\<close>: a falsy value, a value \<open>JSON.parse\<close> rejects, and an object. An object is the
  list of its properties in insertion order. The code only ever writes objects.
\<close>

datatype doc = DNull | DBad | DObj "(string \<times> jval) list"

definition parse_additional_data :: "doc \<Rightarrow> (string \<times> jval) list" where
  "parse_additional_data d = (case d of DObj kv \<Rightarrow> kv | _ \<Rightarrow> [])"

fun js_truthy :: "jval \<Rightarrow> bool" where
  "js_truthy JNull = False"
| "js_truthy (JBool b) = b"
| "js_truthy (JNum n) = (n \<noteq> 0)"
| "js_truthy (JStr s) = (s \<noteq> [])"
| "js_truthy (JArr xs) = True"
| "js_truthy (JObj kv) = True"

definition get_prop :: "(string \<times> jval) list \<Rightarrow> string \<Rightarrow> jval option" where
  "get_prop kv k = map_of kv k"

text \<open>\<open>obj[k] = x\<close>: an existing property keeps its place, a new one goes last.\<close>

fun set_prop :: "string \<Rightarrow> jval \<Rightarrow> (string \<times> jval) list \<Rightarrow> (string \<times> jval) list" where
  "set_prop k x [] = [(k, x)]"
| "set_prop k x (p # ps) = (if fst p = k then (k, x) # ps else p # set_prop k x ps)"

definition delete_prop :: "string \<Rightarrow> (string \<times> jval) list \<Rightarrow> (string \<times> jval) list" where
  "delete_prop k kv = filter (\<lambda>p. fst p \<noteq> k) kv"

text \<open>\<open>if (obj[k]) delete obj[k]\<close>.\<close>

definition delete_if_truthy :: "string \<Rightarrow> (string \<times> jval) list \<Rightarrow> (string \<times> jval) list" where
  "delete_if_truthy k kv =
     (case get_prop kv k of
        None \<Rightarrow> kv
      | Some x \<Rightarrow> if js_truthy x then delete_prop k kv else kv)"

datatype vstatus = Draft | Published | Archived

text \<open>A timestamp is an integer number of milliseconds.\<close>

record vehicle_row =
  col_id :: nat
  col_asofix_id :: string
  col_title :: string
  col_content :: "string option"
  col_status :: vstatus
  col_year :: "rat option"
  col_kilometres :: "rat option"
  col_license_plate :: "string option"
  col_price_usd :: "rat option"
  col_price_ars :: "rat option"
  col_featured_image_id :: "nat option"
  col_created_at :: "int option"
  col_updated_at :: "int option"
  col_last_synced_at :: "int option"
  col_asofix_updated_at :: "int option"
  col_version_hash :: "string option"
  col_additional_data :: doc

record image_row =
  img_id :: nat
  img_vehicle_id :: nat
  img_url :: string
  img_file_path :: "string option"
  is_featured :: bool
  sort_order :: int
  img_created_at :: "int option"

record pending_row =
  pend_id :: nat
  pend_vehicle_id :: nat
  pend_url :: string
  pend_created_at :: "int option"

record term_row =
  term_id :: nat
  term_taxonomy :: string
  term_name :: string

record vt_row =
  vt_id :: nat
  vt_vehicle_id :: nat
  vt_taxonomy :: string
  vt_term_id :: nat

text \<open>
  A download issued by the image pipeline: the pending entry it serves (vehicle and
  image URL) and the URL requested.
\<close>

record http_request =
  req_vehicle_id :: nat
  req_image_url :: string
  req_url :: string

text \<open>
  The state the sync service reads and writes: the five tables with their
  \<open>AUTO_INCREMENT\<close> counters, the files written under the image directory, and the log
  of HTTP downloads issued. Statements of the connection pool are modelled as
  succeeding, except where a key or a foreign key is violated; values are taken to fit
  their columns, and a \<open>WHERE\<close> comparison of strings to be equality. The clock is
  read as one instant.
\<close>

record world =
  vehicles :: "vehicle_row list"
  vehicle_images :: "image_row list"
  pending_images :: "pending_row list"
  taxonomy_terms :: "term_row list"
  vehicle_taxonomies :: "vt_row list"
  next_vehicle_id :: nat
  next_image_id :: nat
  next_pending_id :: nat
  next_term_id :: nat
  next_vt_id :: nat
  files :: "(string \<times> string) list"
  http_log :: "http_request list"

text \<open>
  What the service takes from its surroundings: the filter configuration, the
  conversions of numbers and dates to text, \<open>JSON.stringify\<close> and the SHA-256 digest,
  the clock, the HTTP download of an image, the image directory
  (\<open>IMAGES_PATH || UPLOAD_PATH || './uploads'\<close>), the file system, and the catalogue
  API (its key, the pages it serves, the page limit of a point lookup). A call that
  can throw has an \<open>outcome\<close>. The file system answers as the disk does: whether a
  path exists, and whether creating a directory or writing a file there throws
  (\<open>EACCES\<close>, \<open>ENOSPC\<close>, \<open>EISDIR\<close> for a path that is a directory, ...). Like the
  answer to a download it is taken to be the same throughout a run; a directory that
  \<open>mkdirSync\<close> has created is found by \<open>existsSync\<close> afterwards in the source and created
  once more, with the same outcome, in the model (\<open>recursive: true\<close> accepts a directory
  that exists).
\<close>

datatype 'a outcome = Threw string | Returned 'a

record ApiMeta =
  current_page :: "nat option"
  total_pages :: "nat option"
  total_count :: "nat option"

record ApiResponse =
  data :: "AsofixVehicle list option"
  meta :: "ApiMeta option"

record env =
  filterConfig :: FilterConfig
  numToString :: "rat \<Rightarrow> string"
  toISOString :: "int \<Rightarrow> string"
  json_stringify :: "jval \<Rightarrow> string"
  sha256_hex :: "string \<Rightarrow> string"
  clock_now :: int
  http_get :: "string \<Rightarrow> string outcome"
  imagesPath :: string
  fs_existsSync :: "string \<Rightarrow> bool"
  fs_mkdirSync :: "string \<Rightarrow> unit outcome"
  fs_writeFileSync :: "string \<Rightarrow> string \<Rightarrow> unit outcome"
  apiKey :: string
  api_page :: "nat \<Rightarrow> nat \<Rightarrow> ApiResponse outcome"
  maxPages :: nat

section \<open>Reconciler (SyncService, lines 29 to 475)\<close>

definition findVehicleByAsofixId :: "world \<Rightarrow> string \<Rightarrow> nat option" where
  "findVehicleByAsofixId w asofixId =
     (case find (\<lambda>r. col_asofix_id r = asofixId) (vehicles w) of
        None \<Rightarrow> None
      | Some r \<Rightarrow> Some (col_id r))"

text \<open>\<open>if (existingId)\<close> on a \<open>number | null\<close>.\<close>

definition id_truthy :: "nat option \<Rightarrow> bool" where
  "id_truthy x = (case x of None \<Rightarrow> False | Some i \<Rightarrow> i \<noteq> 0)"

text \<open>
  \<open>UPDATE vehicles SET ... WHERE ...\<close>. Column \<open>updated_at\<close> is declared
  \<open>ON UPDATE CURRENT_TIMESTAMP\<close>: a statement that does not assign it and changes the
  row sets it to the current time (\<open>auto_touch\<close>).
\<close>

definition update_vehicles :: "(vehicle_row \<Rightarrow> bool) \<Rightarrow> (vehicle_row \<Rightarrow> vehicle_row) \<Rightarrow> world \<Rightarrow> world" where
  "update_vehicles P f w = w\<lparr>vehicles := map (\<lambda>r. if P r then f r else r) (vehicles w)\<rparr>"

definition auto_touch :: "int \<Rightarrow> (vehicle_row \<Rightarrow> vehicle_row) \<Rightarrow> vehicle_row \<Rightarrow> vehicle_row" where
  "auto_touch t f r = (if f r = r then r else (f r)\<lparr>col_updated_at := Some t\<rparr>)"

definition row_by_id :: "world \<Rightarrow> nat \<Rightarrow> vehicle_row option" where
  "row_by_id w i = find (\<lambda>r. col_id r = i) (vehicles w)"

text \<open>\<open>rows[0]?.additional_data\<close> parsed, \<open>{}\<close> when absent or not parseable.\<close>

definition additional_data_of :: "world \<Rightarrow> nat \<Rightarrow> (string \<times> jval) list" where
  "additional_data_of w i =
     (case row_by_id w i of None \<Rightarrow> [] | Some r \<Rightarrow> parse_additional_data (col_additional_data r))"

subsection \<open>Version fingerprint\<close>

definition image_urls_of :: "AsofixVehicle \<Rightarrow> string list" where
  "image_urls_of v =
     filter (\<lambda>url. url \<noteq> [])
       (map (\<lambda>img. or_else img []) (case images v of None \<Rightarrow> [] | Some imgs \<Rightarrow> imgs))"

definition title_of :: "AsofixVehicle \<Rightarrow> string" where
  "title_of v =
     trim (or_else (brand_name v) [] @ '' '' @ or_else (model_name v) [] @ '' ''
           @ or_else (version v) [])"

definition jopt_str :: "string option \<Rightarrow> jval" where
  "jopt_str x = (case x of None \<Rightarrow> JNull | Some s \<Rightarrow> JStr s)"

definition jopt_num :: "rat option \<Rightarrow> jval" where
  "jopt_num x = (case x of None \<Rightarrow> JNull | Some n \<Rightarrow> JNum n)"

definition first_color :: "AsofixVehicle \<Rightarrow> string option" where
  "first_color v = (case colors v of Some (c # cs) \<Rightarrow> c | _ \<Rightarrow> None)"

definition hash_stock_status :: "AsofixVehicle \<Rightarrow> string" where
  "hash_stock_status v =
     (case stocks v of None \<Rightarrow> []
      | Some ss \<Rightarrow>
          (case find (\<lambda>s. case stock_status s of None \<Rightarrow> False
                             | Some t \<Rightarrow> toUpperCase t = code_points_of ''ACTIVO'') ss of
             None \<Rightarrow> []
           | Some s \<Rightarrow> or_else (stock_status s) []))"

text \<open>An absent optional field is written as \<open>JNull\<close> in \<open>relevantData\<close>.\<close>

definition relevantData :: "AsofixVehicle \<Rightarrow> jval" where
  "relevantData v =
     (let imageUrls = sort (image_urls_of v) in
      JObj [(''id'', JStr (av_id v)),
            (''title'', JStr (title_of v)),
            (''description'', JStr (or_else (description v) [])),
            (''year'', jopt_num (year v)),
            (''kilometres'', jopt_num (kilometres v)),
            (''price'', JNum (list_price_of v)),
            (''currency'', JStr (or_else (case price v of None \<Rightarrow> None | Some p \<Rightarrow> currency_name p) [])),
            (''condition'', jopt_str (car_condition v)),
            (''transmission'', jopt_str (car_transmission v)),
            (''fuel_type'', jopt_str (car_fuel_type v)),
            (''segment'', jopt_str (car_segment v)),
            (''color'', JStr (or_else (first_color v) [])),
            (''license_plate'', jopt_str (license_plate v)),
            (''images_urls'', JArr (map JStr imageUrls)),
            (''images_count'', JNum (of_nat (length imageUrls))),
            (''stock_status'', JStr (hash_stock_status v))])"

definition generateVersionHash :: "env \<Rightarrow> AsofixVehicle \<Rightarrow> string" where
  "generateVersionHash e v = sha256_hex e (json_stringify e (relevantData v))"

definition needsUpdate :: "world \<Rightarrow> string \<Rightarrow> string \<Rightarrow> bool" where
  "needsUpdate w asofixId newHash =
     (case find (\<lambda>r. col_asofix_id r = asofixId) (vehicles w) of
        None \<Rightarrow> True
      | Some r \<Rightarrow> col_version_hash r \<noteq> Some newHash)"


subsection \<open>processVehicle\<close>

record ProcessResult =
  success :: bool
  message :: string
  vehicleId :: "nat option"
  wasNew :: "bool option"
  wasUpdated :: "bool option"
  filtered :: "bool option"

text \<open>The bucket written to \<open>additional_data.filter_reason\<close> (lines 276 to 287).\<close>

definition filter_bucket :: "string option \<Rightarrow> string" where
  "filter_bucket rsn =
     (let has = (\<lambda>p. case rsn of None \<Rightarrow> False | Some r \<Rightarrow> str_includes (toLowerCase r) p) in
      if has ''dakota'' \<or> has ''location_name'' then ''dakota_location''
      else if has ''precio'' then ''min_price''
      else if has ''estado'' then ''blocked_status''
      else if has ''imagen'' then ''no_images''
      else if has ''stock'' then ''no_active_stock''
      else ''unknown'')"

text \<open>Lines 261 to 295: the archive of an existing vehicle that the filter rejects.\<close>

definition archive_by_filter :: "env \<Rightarrow> nat \<Rightarrow> string option \<Rightarrow> world \<Rightarrow> world" where
  "archive_by_filter e existingId rsn w =
     (let additionalData =
            set_prop ''filter_reason'' (JStr (filter_bucket rsn)) (additional_data_of w existingId)
      in update_vehicles (\<lambda>r. col_id r = existingId)
           (\<lambda>r. r\<lparr>col_status := Archived, col_additional_data := DObj additionalData,
                  col_updated_at := Some (clock_now e)\<rparr>) w)"

text \<open>Lines 303 to 333: an archived vehicle that passes the filter is published again.\<close>

definition reactivate_if_archived :: "env \<Rightarrow> nat \<Rightarrow> world \<Rightarrow> world" where
  "reactivate_if_archived e existingId w =
     (case row_by_id w existingId of
        None \<Rightarrow> w
      | Some row \<Rightarrow>
          if col_status row = Archived then
            (let additionalData =
                   delete_if_truthy ''filter_reason'' (parse_additional_data (col_additional_data row))
             in update_vehicles (\<lambda>r. col_id r = existingId)
                  (\<lambda>r. r\<lparr>col_status := Published, col_additional_data := DObj additionalData,
                         col_updated_at := Some (clock_now e)\<rparr>) w)
          else w)"

definition getOrCreateTerm :: "string \<Rightarrow> string \<Rightarrow> world \<Rightarrow> nat option \<times> world" where
  "getOrCreateTerm taxonomy termName w =
     (if termName = [] \<or> trim termName = [] then (None, w)
      else
        (case find (\<lambda>t. term_taxonomy t = taxonomy \<and> term_name t = trim termName) (taxonomy_terms w) of
           Some t \<Rightarrow> (Some (term_id t), w)
         | None \<Rightarrow>
             (Some (next_term_id w),
              w\<lparr>taxonomy_terms := taxonomy_terms w
                    @ [\<lparr>term_id = next_term_id w, term_taxonomy = taxonomy, term_name = trim termName\<rparr>],
                next_term_id := next_term_id w + 1\<rparr>)))"

definition taxonomyMap :: "AsofixVehicle \<Rightarrow> (string \<times> string option) list" where
  "taxonomyMap v =
     [(''brand'', brand_name v),
      (''model'', model_name v),
      (''condition'', Some (if car_condition v = Some ''new'' then ''0KM'' else ''Usado'')),
      (''transmission'', car_transmission v),
      (''fuel_type'', car_fuel_type v),
      (''color'', first_color v),
      (''segment'', car_segment v)]"

definition assign_taxonomy :: "nat \<Rightarrow> string \<times> string option \<Rightarrow> world \<Rightarrow> world" where
  "assign_taxonomy vid entry w =
     (case entry of (taxonomy, termName) \<Rightarrow>
        if truthy termName then
          (case getOrCreateTerm taxonomy (or_else termName []) w of
             (termId, w1) \<Rightarrow>
               if id_truthy termId then
                 w1\<lparr>vehicle_taxonomies :=
                       filter (\<lambda>x. \<not> (vt_vehicle_id x = vid \<and> vt_taxonomy x = taxonomy)) (vehicle_taxonomies w1)
                       @ [\<lparr>vt_id = next_vt_id w1, vt_vehicle_id = vid, vt_taxonomy = taxonomy,
                            vt_term_id = the termId\<rparr>],
                    next_vt_id := next_vt_id w1 + 1\<rparr>
               else w1)
        else w)"

definition assignTaxonomies :: "nat \<Rightarrow> AsofixVehicle \<Rightarrow> world \<Rightarrow> world" where
  "assignTaxonomies vid v w = fold (assign_taxonomy vid) (taxonomyMap v) w"

text \<open>\<open>parseInt(String(x))\<close> of a number printed in positional notation.\<close>

definition parseInt_num :: "rat \<Rightarrow> rat" where
  "parseInt_num x = (if x \<ge> 0 then of_int \<lfloor>x\<rfloor> else of_int \<lceil>x\<rceil>)"

definition nonzero :: "rat option \<Rightarrow> rat option" where
  "nonzero x = (case x of None \<Rightarrow> None | Some n \<Rightarrow> if n = 0 then None else Some n)"

definition setVehicleMetadata :: "env \<Rightarrow> nat \<Rightarrow> AsofixVehicle \<Rightarrow> world \<Rightarrow> world" where
  "setVehicleMetadata e vid v w =
     (let km = parseInt_num (case kilometres v of None \<Rightarrow> 0 | Some k \<Rightarrow> k);
          finalKilometres = (if km < 100 then 0 else km);
          p = list_price_of v;
          currency = toLowerCase (or_else (case price v of None \<Rightarrow> None | Some pr \<Rightarrow> currency_name pr) []);
          dollar = (str_includes currency ''dolar'' \<or> str_includes currency ''usd'');
          priceUsd = (if dollar then (if p \<ge> 1000 then Some p else None)
                      else if p > 901000 then None
                      else if p \<ge> 1000 \<and> p \<le> 900000 then Some p else None);
          priceArs = (if \<not> dollar \<and> p > 901000 then Some p else None)
      in update_vehicles (\<lambda>r. col_id r = vid)
           (\<lambda>r. r\<lparr>col_kilometres := Some finalKilometres, col_year := nonzero (year v),
                  col_license_plate := (if truthy (license_plate v) then license_plate v else None),
                  col_price_usd := priceUsd, col_price_ars := priceArs,
                  col_updated_at := Some (clock_now e)\<rparr>) w)"

definition insert_pending :: "env \<Rightarrow> nat \<Rightarrow> string \<Rightarrow> world \<Rightarrow> world" where
  "insert_pending e vid url w =
     w\<lparr>pending_images := pending_images w
          @ [\<lparr>pend_id = next_pending_id w, pend_vehicle_id = vid, pend_url = url,
               pend_created_at = Some (clock_now e)\<rparr>],
       next_pending_id := next_pending_id w + 1\<rparr>"

definition delete_pending_of_vehicle :: "nat \<Rightarrow> world \<Rightarrow> world" where
  "delete_pending_of_vehicle vid w =
     w\<lparr>pending_images := filter (\<lambda>p. pend_vehicle_id p \<noteq> vid) (pending_images w)\<rparr>"

definition savePendingImages :: "env \<Rightarrow> nat \<Rightarrow> string list \<Rightarrow> world \<Rightarrow> world" where
  "savePendingImages e vid imageUrls w =
     (if imageUrls = [] then w
      else fold (insert_pending e vid) imageUrls (delete_pending_of_vehicle vid w))"

text \<open>
  \<open>DELETE FROM vehicle_images WHERE ...\<close>, with the foreign key of
  \<open>vehicles.featured_image_id\<close> (\<open>ON DELETE SET NULL\<close>).
\<close>

definition delete_images :: "(image_row \<Rightarrow> bool) \<Rightarrow> world \<Rightarrow> world" where
  "delete_images P w =
     (let gone = map img_id (filter P (vehicle_images w)) in
      w\<lparr>vehicle_images := filter (\<lambda>i. \<not> P i) (vehicle_images w),
        vehicles := map (\<lambda>r. case col_featured_image_id r of
                                None \<Rightarrow> r
                              | Some i \<Rightarrow> if i \<in> set gone then r\<lparr>col_featured_image_id := None\<rparr> else r)
                        (vehicles w)\<rparr>)"


definition or_null :: "jval option \<Rightarrow> jval" where
  "or_null x = (case x of None \<Rightarrow> JNull | Some j \<Rightarrow> if js_truthy j then j else JNull)"

definition new_additional_data :: "AsofixVehicle \<Rightarrow> (string \<times> jval) list" where
  "new_additional_data v =
     [(''version'', if truthy (version v) then jopt_str (version v) else JNull),
      (''brand_id'', or_null (brand_id v)),
      (''model_id'', or_null (model_id v)),
      (''stock_info'',
         JArr (map (\<lambda>s. JObj [(''status'', jopt_str (stock_status s)),
                              (''branch_office_name'', jopt_str (branch_office_name s)),
                              (''location_name'', jopt_str (location_name s))])
                   (case stocks v of None \<Rightarrow> [] | Some ss \<Rightarrow> ss))),
      (''colors'',
         JArr (map (\<lambda>c. JObj [(''name'', jopt_str c)])
                   (case colors v of None \<Rightarrow> [] | Some cs \<Rightarrow> cs))),
      (''original_price'',
         (case price v of
            None \<Rightarrow> JNull
          | Some p \<Rightarrow> JObj [(''list_price'', jopt_num (list_price p)),
                             (''currency_name'', jopt_str (currency_name p))]))]"

definition default_title :: "string \<Rightarrow> string" where
  "default_title asofixId = ''Veh'' @ CHR 0xED # ''culo Asofix ID: '' @ asofixId"

text \<open>The text of the error of an \<open>INSERT\<close> that violates a key of the schema.\<close>

definition constraint_message :: string where
  "constraint_message = ''ER_CONSTRAINT''"

text \<open>Lines 356 to 475: the write path of an admitted record.\<close>

definition upsert :: "env \<Rightarrow> AsofixVehicle \<Rightarrow> string \<Rightarrow> world \<Rightarrow> ProcessResult \<times> world" where
  "upsert e v versionHash w =
     (let asofixId = av_id v;
          t = (if title_of v = [] then default_title asofixId else title_of v);
          content = or_else (description v) [];
          additionalData = DObj (new_additional_data v);
          existingId = findVehicleByAsofixId w asofixId
      in if id_truthy existingId then
           (let vid = the existingId;
                w1 = update_vehicles (\<lambda>r. col_id r = vid)
                       (\<lambda>r. r\<lparr>col_title := t, col_content := Some content, col_status := Published,
                              col_version_hash := Some versionHash,
                              col_last_synced_at := Some (clock_now e),
                              col_asofix_updated_at := Some (clock_now e),
                              col_additional_data := additionalData,
                              col_updated_at := Some (clock_now e)\<rparr>) w;
                newImageUrls = image_urls_of v;
                existingUrls = filter (\<lambda>url. url \<noteq> [])
                                 (map img_url (filter (\<lambda>i. img_vehicle_id i = vid) (vehicle_images w1)));
                urlsToDelete = filter (\<lambda>url. url \<notin> set newImageUrls) existingUrls;
                urlsToAdd = filter (\<lambda>url. url \<notin> set existingUrls) newImageUrls;
                w2 = (if urlsToDelete \<noteq> [] then
                        delete_images (\<lambda>i. img_vehicle_id i = vid \<and> img_url i \<in> set urlsToDelete) w1
                      else w1);
                w3 = (if urlsToAdd \<noteq> [] then savePendingImages e vid urlsToAdd w2
                      else delete_pending_of_vehicle vid w2);
                w4 = setVehicleMetadata e vid v (assignTaxonomies vid v w3)
            in (\<lparr>success = True,
                 message = ''ACTUALIZADO: '' @ asofixId @ '' (Vehicle ID: ''
                           @ numToString e (of_nat vid) @ '')'',
                 vehicleId = Some vid, wasNew = Some False, wasUpdated = Some True,
                 filtered = None\<rparr>, w4))
         else if existingId \<noteq> None then
           (\<lparr>success = False, message = ''Error: '' @ constraint_message, vehicleId = None,
             wasNew = None, wasUpdated = None, filtered = None\<rparr>, w)
         else
           (let vid = next_vehicle_id w;
                w1 = w\<lparr>vehicles := vehicles w
                          @ [\<lparr>col_id = vid, col_asofix_id = asofixId, col_title = t,
                               col_content = Some content, col_status = Published,
                               col_year = None, col_kilometres = Some 0,
                               col_license_plate = None, col_price_usd = None,
                               col_price_ars = None, col_featured_image_id = None,
                               col_created_at = Some (clock_now e),
                               col_updated_at = Some (clock_now e),
                               col_last_synced_at = Some (clock_now e),
                               col_asofix_updated_at = Some (clock_now e),
                               col_version_hash = Some versionHash,
                               col_additional_data = additionalData\<rparr>],
                      next_vehicle_id := vid + 1\<rparr>;
                w2 = setVehicleMetadata e vid v (assignTaxonomies vid v w1);
                w3 = savePendingImages e vid (image_urls_of v) w2
            in (\<lparr>success = True,
                 message = ''NUEVO: '' @ asofixId @ '' creado (Vehicle ID: ''
                           @ numToString e (of_nat vid) @ '')'',
                 vehicleId = Some vid, wasNew = Some True, wasUpdated = Some False,
                 filtered = None\<rparr>, w3)))"

definition unchanged_result :: "string \<Rightarrow> ProcessResult" where
  "unchanged_result asofixId =
     \<lparr>success = True, message = ''Sin cambios para '' @ asofixId, vehicleId = None,
      wasNew = Some False, wasUpdated = Some False, filtered = None\<rparr>"

definition processVehicle :: "env \<Rightarrow> AsofixVehicle \<Rightarrow> bool \<Rightarrow> world \<Rightarrow> ProcessResult \<times> world" where
  "processVehicle e vehicle incremental w =
     (let asofixId = av_id vehicle in
      if asofixId = [] then
        (\<lparr>success = False, message = ''Falta Asofix ID'', vehicleId = None, wasNew = None,
          wasUpdated = None, filtered = None\<rparr>, w)
      else
        (let verdict = shouldOmitVehicle (numToString e) (filterConfig e) vehicle;
             existingId = findVehicleByAsofixId w asofixId
         in if omit verdict then
              (\<lparr>success = True,
                message = ''FILTRADO: '' @ (case reason verdict of None \<Rightarrow> ''undefined'' | Some r \<Rightarrow> r),
                vehicleId = None, wasNew = None, wasUpdated = None, filtered = Some True\<rparr>,
               if id_truthy existingId then archive_by_filter e (the existingId) (reason verdict) w
               else w)
            else
              (let w1 = (if id_truthy existingId then reactivate_if_archived e (the existingId) w
                         else w);
                   versionHash = generateVersionHash e vehicle
               in if incremental \<and> \<not> needsUpdate w1 asofixId versionHash then
                    (unchanged_result asofixId,
                     update_vehicles (\<lambda>r. col_asofix_id r = asofixId)
                       (auto_touch (clock_now e) (\<lambda>r. r\<lparr>col_last_synced_at := Some (clock_now e)\<rparr>))
                       w1)
                  else upsert e vehicle versionHash w1)))"


section \<open>Image Pipeline (SyncService, lines 480 to 696)\<close>

record DownloadResult =
  dl_success :: bool
  dl_message :: string
  dl_imageId :: "nat option"

text \<open>\<open>DELETE FROM pending_images WHERE vehicle_id = ? AND image_url = ?\<close>.\<close>

definition delete_pending :: "nat \<Rightarrow> string \<Rightarrow> world \<Rightarrow> world" where
  "delete_pending vid url w =
     w\<lparr>pending_images :=
         filter (\<lambda>p. \<not> (pend_vehicle_id p = vid \<and> pend_url p = url)) (pending_images w)\<rparr>"

subsection \<open>Paths (\<open>split\<close>, and \<open>path.join\<close> of Node on POSIX)\<close>

text \<open>\<open>s.split('/')\<close>: the pieces of \<open>s\<close> between the slashes, at least one.\<close>

fun split_slash :: "string \<Rightarrow> string list" where
  "split_slash [] = [[]]"
| "split_slash (c # cs) =
     (if c = CHR ''/'' then [] # split_slash cs
      else (case split_slash cs of
              [] \<Rightarrow> [[c]]
            | seg # segs \<Rightarrow> (c # seg) # segs))"

fun join_slash :: "string list \<Rightarrow> string" where
  "join_slash [] = []"
| "join_slash [seg] = seg"
| "join_slash (seg # next # segs) = seg @ ''/'' @ join_slash (next # segs)"

text \<open>
  \<open>normalizeString\<close> of Node's \<open>path\<close> module, on the segments of the path: empty
  segments and \<open>.\<close> are dropped, \<open>..\<close> removes the segment before it, and is kept only
  where there is none to remove and the path is relative. \<open>res\<close> holds the segments
  kept so far, the last one first.
\<close>

fun normalizeString :: "bool \<Rightarrow> string list \<Rightarrow> string list \<Rightarrow> string list" where
  "normalizeString allowAboveRoot res [] = rev res"
| "normalizeString allowAboveRoot res (seg # segs) =
     (if seg = [] \<or> seg = ''.'' then normalizeString allowAboveRoot res segs
      else if seg = ''..'' then
        (case res of
           [] \<Rightarrow> normalizeString allowAboveRoot (if allowAboveRoot then [''..''] else []) segs
         | lastSegment # kept \<Rightarrow>
             if lastSegment = ''..'' then
               normalizeString allowAboveRoot (if allowAboveRoot then ''..'' # res else res) segs
             else normalizeString allowAboveRoot kept segs)
      else normalizeString allowAboveRoot (seg # res) segs)"

definition path_normalize :: "string \<Rightarrow> string" where
  "path_normalize path =
     (if path = [] then ''.''
      else
        (let isAbsolute = (hd path = CHR ''/'');
             trailingSeparator = (last path = CHR ''/'');
             res = join_slash (normalizeString (\<not> isAbsolute) [] (split_slash path))
         in if res = [] then
              (if isAbsolute then ''/'' else if trailingSeparator then ''./'' else ''.'')
            else (if isAbsolute then ''/'' else []) @ res
                 @ (if trailingSeparator then ''/'' else [])))"

definition path_join :: "string list \<Rightarrow> string" where
  "path_join args =
     (let joined = join_slash (filter (\<lambda>arg. arg \<noteq> []) args)
      in if joined = [] then ''.'' else path_normalize joined)"

subsection \<open>downloadImage\<close>

text \<open>The last element of \<open>url.split('/')\<close>.\<close>

definition last_segment :: "string \<Rightarrow> string" where
  "last_segment url = last (split_slash url)"

fun write_file :: "string \<Rightarrow> string \<Rightarrow> (string \<times> string) list \<Rightarrow> (string \<times> string) list" where
  "write_file path body [] = [(path, body)]"
| "write_file path body (f # fs) =
     (if fst f = path then (path, body) # fs else f # write_file path body fs)"

definition images_of_vehicle :: "world \<Rightarrow> nat \<Rightarrow> image_row list" where
  "images_of_vehicle w vid = filter (\<lambda>i. img_vehicle_id i = vid) (vehicle_images w)"

definition msg_vehicle :: string where
  "msg_vehicle = '' para veh'' @ CHR 0xED # ''culo ''"

text \<open>\<open>imageUrl.replace('/th-', '/')\<close>.\<close>

definition highResUrl :: "string \<Rightarrow> string" where
  "highResUrl imageUrl = replace_first ''/th-'' ''/'' imageUrl"

definition download_of :: "string \<Rightarrow> nat \<Rightarrow> http_request" where
  "download_of imageUrl vid =
     \<lparr>req_vehicle_id = vid, req_image_url = imageUrl, req_url = highResUrl imageUrl\<rparr>"

text \<open>Line 525: \<open>path.join(imagesPath, 'autos', String(vehicleId))\<close>.\<close>

definition vehicleDir :: "env \<Rightarrow> nat \<Rightarrow> string" where
  "vehicleDir e vid = path_join [imagesPath e, ''autos'', numToString e (of_nat vid)]"

text \<open>Lines 526 to 528: the directory is created when it does not exist.\<close>

definition ensure_vehicleDir :: "env \<Rightarrow> nat \<Rightarrow> unit outcome" where
  "ensure_vehicleDir e vid =
     (if \<not> fs_existsSync e (vehicleDir e vid) then fs_mkdirSync e (vehicleDir e vid)
      else Returned ())"

text \<open>Lines 538 to 540: the path of the file, in the directory of the vehicle.\<close>

definition image_file_path :: "env \<Rightarrow> string \<Rightarrow> nat \<Rightarrow> string" where
  "image_file_path e imageUrl vid =
     (let seg = last_segment (highResUrl imageUrl);
          filename = (if seg = [] then
                        ''image-'' @ numToString e (of_int (clock_now e)) @ ''.jpg''
                      else seg)
      in path_join [vehicleDir e vid, filename])"

text \<open>
  Lines 544 to 549: the \<open>INSERT\<close> into \<open>vehicle_images\<close>; \<open>is_featured\<close> and
  \<open>sort_order\<close> take the defaults of the schema.
\<close>

definition new_image_row :: "env \<Rightarrow> string \<Rightarrow> nat \<Rightarrow> world \<Rightarrow> image_row" where
  "new_image_row e imageUrl vid w =
     \<lparr>img_id = next_image_id w, img_vehicle_id = vid, img_url = imageUrl,
      img_file_path = Some (image_file_path e imageUrl vid), is_featured = False,
      sort_order = 0, img_created_at = Some (clock_now e)\<rparr>"

definition insert_image :: "image_row \<Rightarrow> world \<Rightarrow> world" where
  "insert_image row w =
     w\<lparr>vehicle_images := vehicle_images w @ [row], next_image_id := next_image_id w + 1\<rparr>"

text \<open>Lines 551 to 561: the first image of a vehicle becomes its featured image.\<close>

definition set_featured_if_first :: "env \<Rightarrow> nat \<Rightarrow> nat \<Rightarrow> world \<Rightarrow> world" where
  "set_featured_if_first e vid imageId w =
     (if length (images_of_vehicle w vid) = 1 then
        update_vehicles (\<lambda>r. col_id r = vid)
          (auto_touch (clock_now e) (\<lambda>r. r\<lparr>col_featured_image_id := Some imageId\<rparr>)) w
      else w)"

text \<open>Lines 574 to 577: the \<open>catch\<close> of \<open>downloadImage\<close>.\<close>

definition download_failed :: "string \<Rightarrow> DownloadResult" where
  "download_failed msg = \<lparr>dl_success = False, dl_message = ''Error: '' @ msg, dl_imageId = None\<rparr>"

text \<open>
  \<open>downloadImage\<close>. Every statement after the lookup of the image row is inside the
  \<open>try\<close>: creating the directory, the download, writing the file and the \<open>INSERT\<close> can
  throw, and the \<open>catch\<close> then reports the failure, with what was done before left as
  it is. The request is logged in \<open>http_log\<close>. An \<open>INSERT\<close> for a vehicle that does not
  exist violates the foreign key of \<open>vehicle_images\<close>.
\<close>

definition downloadImage :: "env \<Rightarrow> string \<Rightarrow> nat \<Rightarrow> world \<Rightarrow> DownloadResult \<times> world" where
  "downloadImage e imageUrl vid w =
     (case find (\<lambda>i. img_vehicle_id i = vid \<and> img_url i = imageUrl) (vehicle_images w) of
        Some existingImage \<Rightarrow>
          (\<lparr>dl_success = True,
            dl_message = ''Imagen ya existe'' @ msg_vehicle @ numToString e (of_nat vid),
            dl_imageId = Some (img_id existingImage)\<rparr>,
           delete_pending vid imageUrl w)
      | None \<Rightarrow>
          (case ensure_vehicleDir e vid of
             Threw msg \<Rightarrow> (download_failed msg, w)
           | Returned u \<Rightarrow>
               (let w1 = w\<lparr>http_log := http_log w @ [download_of imageUrl vid]\<rparr> in
                case http_get e (highResUrl imageUrl) of
                  Threw msg \<Rightarrow> (download_failed msg, w1)
                | Returned body \<Rightarrow>
                    (case fs_writeFileSync e (image_file_path e imageUrl vid) body of
                       Threw msg \<Rightarrow> (download_failed msg, w1)
                     | Returned u \<Rightarrow>
                         (let w2 = w1\<lparr>files := write_file (image_file_path e imageUrl vid) body
                                                  (files w1)\<rparr>
                          in if row_by_id w2 vid = None then
                               (download_failed constraint_message, w2)
                             else
                               (let imageId = next_image_id w2;
                                    w3 = insert_image (new_image_row e imageUrl vid w2) w2;
                                    w4 = set_featured_if_first e vid imageId w3
                                in (\<lparr>dl_success = True,
                                     dl_message = ''Imagen descargada'' @ msg_vehicle
                                                  @ numToString e (of_nat vid),
                                     dl_imageId = Some imageId\<rparr>,
                                    delete_pending vid imageUrl w4)))))))"

text \<open>\<open>SELECT vehicle_id, image_url FROM pending_images ORDER BY id\<close>.\<close>

definition getPendingImages :: "world \<Rightarrow> (nat \<times> string) list" where
  "getPendingImages w =
     map (\<lambda>p. (pend_vehicle_id p, pend_url p)) (sort_key pend_id (pending_images w))"

record ImageCounters =
  processed :: nat
  created :: nat
  errors :: nat

text \<open>One turn of the loop of \<open>downloadAllImages\<close> over the rows read at its start.\<close>

definition download_job :: "env \<Rightarrow> nat \<times> string \<Rightarrow> ImageCounters \<times> world \<Rightarrow> ImageCounters \<times> world" where
  "download_job e job st =
     (case st of (c, w) \<Rightarrow>
        (case downloadImage e (snd job) (fst job) w of
           (result, w1) \<Rightarrow>
             if dl_success result then
               (c\<lparr>processed := processed c + 1,
                  created := (if id_truthy (dl_imageId result) then created c + 1 else created c)\<rparr>,
                w1)
             else (c\<lparr>errors := errors c + 1\<rparr>, w1)))"

definition downloadAllImages :: "env \<Rightarrow> world \<Rightarrow> ImageCounters \<times> world" where
  "downloadAllImages e w =
     fold (download_job e) (getPendingImages w) (\<lparr>processed = 0, created = 0, errors = 0\<rparr>, w)"


section \<open>Catalog Client: point lookup (src/services/asofix-api.ts, lines 177 to 256)\<close>

definition msg_no_api_key :: string where
  "msg_no_api_key = ''La API Key no est'' @ CHR 0xE1 # '' configurada. Verifica tu archivo .env''"

definition getVehiclesPage :: "env \<Rightarrow> nat \<Rightarrow> nat \<Rightarrow> ApiResponse outcome" where
  "getVehiclesPage e page perPage =
     (if apiKey e = [] then Threw msg_no_api_key else api_page e page perPage)"

definition plate_matches :: "nat list \<Rightarrow> AsofixVehicle \<Rightarrow> bool" where
  "plate_matches normalizedLicensePlate v =
     (truthy (license_plate v)
      \<and> toUpperCase (trim (or_else (license_plate v) [])) = normalizedLicensePlate)"

definition nat_truthy :: "nat option \<Rightarrow> bool" where
  "nat_truthy x = (case x of None \<Rightarrow> False | Some n \<Rightarrow> n \<noteq> 0)"

text \<open>\<open>hasMore\<close> after a page in which the plate was not found.\<close>

definition more_pages :: "ApiResponse \<Rightarrow> bool" where
  "more_pages response =
     (case meta response of
        None \<Rightarrow> (case data response of None \<Rightarrow> False | Some vs \<Rightarrow> vs \<noteq> [])
      | Some m \<Rightarrow>
          if nat_truthy (current_page m) \<and> nat_truthy (total_pages m) then
            the (current_page m) < the (total_pages m)
          else (case data response of None \<Rightarrow> False | Some vs \<Rightarrow> vs \<noteq> []))"

text \<open>
  The \<open>while (hasMore && pagesSearched < maxPages)\<close> loop, entered with \<open>hasMore\<close>
  true; \<open>None\<close> is the \<open>return null\<close> after the loop.
\<close>

function search_pages :: "env \<Rightarrow> nat list \<Rightarrow> nat \<Rightarrow> nat \<Rightarrow> nat \<Rightarrow> AsofixVehicle option" where
  "search_pages e plate currentPage pagesSearched consecutiveErrors =
     (if pagesSearched < maxPages e then
        (case getVehiclesPage e currentPage 100 of
           Returned response \<Rightarrow>
             (case find (plate_matches plate) (case data response of None \<Rightarrow> [] | Some vs \<Rightarrow> vs) of
                Some foundVehicle \<Rightarrow> Some foundVehicle
              | None \<Rightarrow>
                  if more_pages response then
                    search_pages e plate (currentPage + 1) (pagesSearched + 1) 0
                  else None)
         | Threw msg \<Rightarrow>
             if consecutiveErrors + 1 \<ge> 3 then None
             else search_pages e plate (currentPage + 1) (pagesSearched + 1) (consecutiveErrors + 1))
      else None)"
  by pat_completeness auto
termination
  by (relation "measure (\<lambda>(e, plate, currentPage, pagesSearched, consecutiveErrors).
        maxPages e - pagesSearched)") auto

definition getVehicleByLicensePlate :: "env \<Rightarrow> string \<Rightarrow> AsofixVehicle option outcome" where
  "getVehicleByLicensePlate e licensePlate =
     (if apiKey e = [] then Threw msg_no_api_key
      else if licensePlate = [] \<or> length (trim licensePlate) = 0 then
        Threw ''El license_plate es requerido''
      else Returned (search_pages e (toUpperCase (trim licensePlate)) 1 0 0))"

section \<open>Sync Orchestrator (SyncService.syncAll, lines 701 to 1343)\<close>

text \<open>The run: the Valid-Set Tracker (a \<open>Set\<close>, in insertion order) and the counters.\<close>

record RunState =
  validVehicleIds :: "string list"
  fase1Processed :: nat
  fase1Created :: nat
  fase1Updated :: nat
  fase1Errors :: nat
  fase1Filtered :: nat
  fase1Archived :: nat

definition tracker_add :: "string \<Rightarrow> RunState \<Rightarrow> RunState" where
  "tracker_add x run =
     (if x \<in> set (validVehicleIds run) then run
      else run\<lparr>validVehicleIds := validVehicleIds run @ [x]\<rparr>)"

text \<open>\<open>vehicle.id || 'ID_DESCONOCIDO'\<close> and the guard on it before every \<open>add\<close>.\<close>

definition asofixId_of :: "AsofixVehicle \<Rightarrow> string" where
  "asofixId_of v = (if av_id v = [] then ''ID_DESCONOCIDO'' else av_id v)"

definition id_known :: "string \<Rightarrow> bool" where
  "id_known a = (a \<noteq> [] \<and> a \<noteq> ''ID_DESCONOCIDO'')"

text \<open>Lines 910 to 915 and 927 to 932: the tracker after a record that failed.\<close>

definition keep_if_admissible :: "env \<Rightarrow> AsofixVehicle \<Rightarrow> RunState \<Rightarrow> RunState" where
  "keep_if_admissible e v run =
     (if \<not> omit (shouldOmitVehicle (numToString e) (filterConfig e) v) \<and> id_known (asofixId_of v)
      then tracker_add (asofixId_of v) run else run)"

text \<open>Lines 858 to 916: after \<open>processVehicle\<close> has returned \<open>result\<close>.\<close>

definition after_result :: "env \<Rightarrow> AsofixVehicle \<Rightarrow> ProcessResult \<Rightarrow> RunState \<Rightarrow> RunState" where
  "after_result e v result run =
     (let asofixId = asofixId_of v;
          unchanged = str_includes (message result) ''Sin cambios'';
          run1 = (if success result \<and> filtered result \<noteq> Some True \<and> id_known asofixId then
                    tracker_add asofixId run
                  else if success result \<and> unchanged \<and> id_known asofixId then
                    tracker_add asofixId run
                  else run)
      in if success result then
           (if filtered result = Some True then run1\<lparr>fase1Filtered := fase1Filtered run1 + 1\<rparr>
            else if unchanged then run1
            else
              (let run2 = run1\<lparr>fase1Processed := fase1Processed run1 + 1\<rparr> in
               if wasNew result = Some True then run2\<lparr>fase1Created := fase1Created run2 + 1\<rparr>
               else if wasUpdated result = Some True then
                 run2\<lparr>fase1Updated := fase1Updated run2 + 1\<rparr>
               else run2))
         else keep_if_admissible e v (run1\<lparr>fase1Errors := fase1Errors run1 + 1\<rparr>))"

definition maxRetries :: nat where
  "maxRetries = 3"

text \<open>
  Lines 847 to 938: the attempts on one record. \<open>attempt n\<close> is the call of
  \<open>processVehicle\<close> at retry count \<open>n\<close>: it returns a result or throws.
\<close>

function process_with_retries ::
  "env \<Rightarrow> (nat \<Rightarrow> world \<Rightarrow> ProcessResult outcome \<times> world) \<Rightarrow> AsofixVehicle \<Rightarrow> nat
   \<Rightarrow> RunState \<times> world \<Rightarrow> RunState \<times> world" where
  "process_with_retries e attempt v retryCount st =
     (case st of (run, w) \<Rightarrow>
        if retryCount < maxRetries then
          (case attempt retryCount w of
             (Returned result, w1) \<Rightarrow> (after_result e v result run, w1)
           | (Threw msg, w1) \<Rightarrow>
               if retryCount + 1 \<ge> maxRetries then
                 process_with_retries e attempt v (retryCount + 1)
                   (keep_if_admissible e v (run\<lparr>fase1Errors := fase1Errors run + 1\<rparr>), w1)
               else process_with_retries e attempt v (retryCount + 1) (run, w1))
        else (run, w))"
  by pat_completeness auto
termination
  by (relation "measure (\<lambda>(e, attempt, v, retryCount, st). maxRetries - retryCount)") auto

text \<open>The attempt of the model's \<open>processVehicle\<close>, whose statements never throw.\<close>

definition attempt_processVehicle ::
  "env \<Rightarrow> AsofixVehicle \<Rightarrow> bool \<Rightarrow> nat \<Rightarrow> world \<Rightarrow> ProcessResult outcome \<times> world" where
  "attempt_processVehicle e v incremental n w =
     (case processVehicle e v incremental w of (result, w1) \<Rightarrow> (Returned result, w1))"


text \<open>
  Lines 830 to 941: the records of one batch, with the \<open>break\<close> at the record limit
  (\<open>limit = 0\<close> is no limit).
\<close>

fun reconcile_batch ::
  "env \<Rightarrow> bool \<Rightarrow> nat \<Rightarrow> AsofixVehicle list \<Rightarrow> RunState \<times> world \<Rightarrow> RunState \<times> world" where
  "reconcile_batch e incremental limit [] st = st"
| "reconcile_batch e incremental limit (v # vs) st =
     (if limit > 0 \<and> fase1Processed (fst st) \<ge> limit then st
      else reconcile_batch e incremental limit vs
             (process_with_retries e (attempt_processVehicle e v incremental) v 0 st))"

text \<open>
  Lines 817 to 947: the batches \<open>slice(i, i + batchSize)\<close>. With \<open>batchSize = 0\<close> and
  records to process the source's \<open>for\<close> loop never ends, which is \<open>None\<close>.
\<close>

function reconcile_from ::
  "env \<Rightarrow> bool \<Rightarrow> nat \<Rightarrow> nat \<Rightarrow> AsofixVehicle list \<Rightarrow> nat \<Rightarrow> RunState \<times> world
   \<Rightarrow> (RunState \<times> world) option" where
  "reconcile_from e incremental limit batchSize allVehicles i st =
     (if i < length allVehicles then
        (if batchSize = 0 then None
         else reconcile_from e incremental limit batchSize allVehicles (i + batchSize)
                (reconcile_batch e incremental limit (take batchSize (drop i allVehicles)) st))
      else Some st)"
  by pat_completeness auto
termination
  by (relation "measure (\<lambda>(e, incremental, limit, batchSize, allVehicles, i, st).
        length allVehicles - i)") auto

subsection \<open>Cleanup phase (lines 1090 to 1256)\<close>

definition hours48 :: int where
  "hours48 = 48 * 3600000"

text \<open>The rows of the \<open>SELECT\<close> of lines 1102 to 1110.\<close>

definition cleanup_candidates :: "env \<Rightarrow> RunState \<Rightarrow> world \<Rightarrow> vehicle_row list" where
  "cleanup_candidates e run w =
     take 10000
       (filter (\<lambda>r. col_status r = Published
                   \<and> col_asofix_id r \<notin> set (validVehicleIds run)
                   \<and> (case col_updated_at r of
                         None \<Rightarrow> True
                       | Some u \<Rightarrow> u < clock_now e - hours48))
               (vehicles w))"

text \<open>\<open>hoursSinceUpdate < 48\<close> on the \<open>updated_at\<close> of the selected row.\<close>

definition updated_recently :: "env \<Rightarrow> vehicle_row \<Rightarrow> bool" where
  "updated_recently e r =
     (case col_updated_at r of
        None \<Rightarrow> False
      | Some u \<Rightarrow> clock_now e - u < hours48)"

text \<open>Lines 1202 to 1222: the archive of the cleanup, with its audit trail.\<close>

definition archive_by_cleanup :: "env \<Rightarrow> nat \<Rightarrow> string \<Rightarrow> world \<Rightarrow> world" where
  "archive_by_cleanup e vid verificationReason w =
     (let additionalData =
            set_prop ''archived_at'' (JStr (toISOString e (clock_now e)))
              (set_prop ''cleanup_verification'' (JStr verificationReason)
                 (set_prop ''filter_reason'' (JStr ''not_in_valid_set'') (additional_data_of w vid)))
      in update_vehicles (\<lambda>r. col_id r = vid)
           (\<lambda>r. r\<lparr>col_status := Archived, col_additional_data := DObj additionalData,
                  col_updated_at := Some (clock_now e)\<rparr>) w)"

text \<open>
  Lines 1162 to 1200: the recheck of a candidate against the API. The result is
  \<open>shouldArchive\<close> with \<open>verificationReason\<close>.
\<close>

definition recheck :: "env \<Rightarrow> string \<Rightarrow> string option \<Rightarrow> bool \<times> string" where
  "recheck e asofixId licensePlate =
     (if truthy licensePlate \<and> length (trim (or_else licensePlate [])) > 0 then
        (case getVehicleByLicensePlate e (or_else licensePlate []) of
           Returned (Some apiVehicle) \<Rightarrow>
             if av_id apiVehicle = asofixId then
               (let verdict = shouldOmitVehicle (numToString e) (filterConfig e) apiVehicle in
                if \<not> omit verdict then (False, ''valido_en_api'')
                else (True, ''filtrado_en_api: ''
                            @ (case reason verdict of None \<Rightarrow> ''undefined'' | Some r \<Rightarrow> r)))
             else (True, ''no_encontrado_en_api'')
         | Returned None \<Rightarrow> (True, ''no_encontrado_en_api'')
         | Threw msg \<Rightarrow> (True, ''error_consulta_api: '' @ msg))
      else (True, ''sin_license_plate''))"

text \<open>Lines 1116 to 1226: one candidate of the cleanup.\<close>

definition cleanup_one :: "env \<Rightarrow> vehicle_row \<Rightarrow> RunState \<times> world \<Rightarrow> RunState \<times> world" where
  "cleanup_one e vehicle st =
     (case st of (run, w) \<Rightarrow>
        (let licensePlate = (case row_by_id w (col_id vehicle) of
                               None \<Rightarrow> None | Some r \<Rightarrow> col_license_plate r);
             additionalData = additional_data_of w (col_id vehicle)
         in if get_prop additionalData ''keep_published'' = Some (JBool True) then
              (tracker_add (col_asofix_id vehicle) run, w)
            else if updated_recently e vehicle then
              (tracker_add (col_asofix_id vehicle) run, w)
            else
              (case recheck e (col_asofix_id vehicle) licensePlate of
                 (shouldArchive, verificationReason) \<Rightarrow>
                   if shouldArchive then
                     (run\<lparr>fase1Archived := fase1Archived run + 1\<rparr>,
                      archive_by_cleanup e (col_id vehicle) verificationReason w)
                   else (tracker_add (col_asofix_id vehicle) run, w))))"

definition cleanup_phase :: "env \<Rightarrow> RunState \<times> world \<Rightarrow> RunState \<times> world" where
  "cleanup_phase e st =
     (case st of (run, w) \<Rightarrow>
        if length (validVehicleIds run) > 0 then
          (let publishedVehicles = cleanup_candidates e run w in
           if length publishedVehicles > 0 then fold (cleanup_one e) publishedVehicles (run, w)
           else (run, w))
        else (run, w))"


section \<open>Properties: vocabulary\<close>

text \<open>
  A record fails terminally: \<open>processVehicle\<close> returns \<open>success = false\<close>, or throws
  until the \<open>k\<close> attempts that are left are used up.
\<close>

fun fails_after :: "(nat \<Rightarrow> world \<Rightarrow> ProcessResult outcome \<times> world) \<Rightarrow> nat \<Rightarrow> nat \<Rightarrow> world \<Rightarrow> bool" where
  "fails_after attempt n 0 w = True"
| "fails_after attempt n (Suc k) w =
     (case attempt n w of
        (Returned result, w1) \<Rightarrow> \<not> success result
      | (Threw msg, w1) \<Rightarrow> fails_after attempt (n + 1) k w1)"

definition fails_terminally :: "(nat \<Rightarrow> world \<Rightarrow> ProcessResult outcome \<times> world) \<Rightarrow> world \<Rightarrow> bool" where
  "fails_terminally attempt w = fails_after attempt 0 maxRetries w"

text \<open>Two rows agree on every column other than \<open>last_synced_at\<close> and \<open>updated_at\<close>.\<close>

definition same_but_sync_times :: "vehicle_row \<Rightarrow> vehicle_row \<Rightarrow> bool" where
  "same_but_sync_times r r' =
     (r'\<lparr>col_last_synced_at := col_last_synced_at r, col_updated_at := col_updated_at r\<rparr> = r)"

text \<open>
  The archive by the filter, on one row: status, the \<open>filter_reason\<close> property of the
  document, and \<open>updated_at\<close>.
\<close>

definition archived_row :: "env \<Rightarrow> string option \<Rightarrow> vehicle_row \<Rightarrow> vehicle_row" where
  "archived_row e rsn r =
     r\<lparr>col_status := Archived,
       col_additional_data :=
         DObj (set_prop ''filter_reason'' (JStr (filter_bucket rsn))
                 (parse_additional_data (col_additional_data r))),
       col_updated_at := Some (clock_now e)\<rparr>"

text \<open>
  The reactivation of an archived vehicle followed by the refresh of \<open>last_synced_at\<close>,
  on one row: the status, the \<open>filter_reason\<close> property of the document (deleted when
  it is truthy), and the two timestamps.
\<close>

definition reactivated_row :: "env \<Rightarrow> vehicle_row \<Rightarrow> vehicle_row" where
  "reactivated_row e r =
     r\<lparr>col_status := Published,
       col_additional_data :=
         DObj (delete_if_truthy ''filter_reason'' (parse_additional_data (col_additional_data r))),
       col_updated_at := Some (clock_now e),
       col_last_synced_at := Some (clock_now e)\<rparr>"

text \<open>
  The vehicle with id \<open>vid\<close> is archived, and its document carries the cleanup's
  audit trail with the given verification reason.
\<close>

definition archived_with :: "world \<Rightarrow> nat \<Rightarrow> string \<Rightarrow> bool" where
  "archived_with w vid verificationReason =
     (case row_by_id w vid of
        None \<Rightarrow> False
      | Some r \<Rightarrow>
          col_status r = Archived
          \<and> get_prop (parse_additional_data (col_additional_data r)) ''filter_reason''
              = Some (JStr ''not_in_valid_set'')
          \<and> get_prop (parse_additional_data (col_additional_data r)) ''cleanup_verification''
              = Some (JStr verificationReason))"

text \<open>
  The image can be stored: the directory of the vehicle exists or can be created, the
  download returns \<open>body\<close>, and the file can be written.
\<close>

definition can_store :: "env \<Rightarrow> nat \<Rightarrow> string \<Rightarrow> string \<Rightarrow> bool" where
  "can_store e vid url body =
     (ensure_vehicleDir e vid = Returned ()
      \<and> http_get e (highResUrl url) = Returned body
      \<and> fs_writeFileSync e (image_file_path e url vid) body = Returned ())"

text \<open>The store after \<open>downloadImage\<close> has written the file and the image row.\<close>

definition after_store :: "env \<Rightarrow> string \<Rightarrow> nat \<Rightarrow> string \<Rightarrow> world \<Rightarrow> world" where
  "after_store e url vid body w =
     set_featured_if_first e vid (next_image_id w)
       (insert_image (new_image_row e url vid w)
          (w\<lparr>http_log := http_log w @ [download_of url vid],
             files := write_file (image_file_path e url vid) body (files w)\<rparr>))"

text \<open>The \<open>featured_image_id\<close> of the vehicle with id \<open>vid\<close>.\<close>

definition featured_image_of :: "world \<Rightarrow> nat \<Rightarrow> nat option" where
  "featured_image_of w vid =
     (case row_by_id w vid of None \<Rightarrow> None | Some r \<Rightarrow> col_featured_image_id r)"

text \<open>
  The invariant of the featured image: of the images of a vehicle at most one has
  \<open>is_featured\<close>, and the vehicle's \<open>featured_image_id\<close> refers to it.
\<close>

definition featured_rows :: "world \<Rightarrow> nat \<Rightarrow> image_row list" where
  "featured_rows w vid = filter (\<lambda>i. is_featured i \<and> img_vehicle_id i = vid) (vehicle_images w)"

definition featured_ok :: "world \<Rightarrow> vehicle_row \<Rightarrow> bool" where
  "featured_ok w r =
     (length (featured_rows w (col_id r)) \<le> 1
      \<and> list_all (\<lambda>i. col_featured_image_id r = Some (img_id i)) (featured_rows w (col_id r)))"

definition featured_inv :: "world \<Rightarrow> bool" where
  "featured_inv w = list_all (featured_ok w) (vehicles w)"

text \<open>The rows of \<open>vehicle_images\<close> for a vehicle and a URL.\<close>

definition image_rows_for :: "world \<Rightarrow> nat \<Rightarrow> string \<Rightarrow> image_row list" where
  "image_rows_for w vid url =
     filter (\<lambda>i. img_vehicle_id i = vid \<and> img_url i = url) (vehicle_images w)"

definition pending_rows_for :: "world \<Rightarrow> nat \<Rightarrow> string \<Rightarrow> pending_row list" where
  "pending_rows_for w vid url =
     filter (\<lambda>p. pend_vehicle_id p = vid \<and> pend_url p = url) (pending_images w)"

text \<open>The downloads issued for a vehicle and an image URL.\<close>

definition downloads_for :: "world \<Rightarrow> nat \<Rightarrow> string \<Rightarrow> http_request list" where
  "downloads_for w vid url =
     filter (\<lambda>r. req_vehicle_id r = vid \<and> req_image_url r = url) (http_log w)"

text \<open>
  The two states of a vehicle and an image URL while the queue is drained, relative to
  the number \<open>n\<close> of downloads issued for them before: the image is not stored yet,
  and the image was stored by one more download and is no longer pending.
\<close>

definition not_yet_stored :: "world \<Rightarrow> nat \<Rightarrow> string \<Rightarrow> nat \<Rightarrow> bool" where
  "not_yet_stored w vid url n =
     (image_rows_for w vid url = [] \<and> length (downloads_for w vid url) = n
      \<and> row_by_id w vid \<noteq> None)"

definition stored_once :: "world \<Rightarrow> nat \<Rightarrow> string \<Rightarrow> nat \<Rightarrow> bool" where
  "stored_once w vid url n =
     (length (image_rows_for w vid url) = 1 \<and> length (downloads_for w vid url) = n + 1
      \<and> pending_rows_for w vid url = [])"


section \<open>Example data\<close>

text \<open>
  A configuration, an environment, an admissible record and a store with one
  published vehicle, on which the theorems below are instantiated. The stand-in for
  \<open>JSON.stringify\<close> followed by the digest reads the image URLs of the projection.
\<close>

definition example_config :: FilterConfig where
  "example_config =
     \<lparr>blockedBranchOffices = [''Dakota''], minPrice = 1, blockedStatuses = [''reservado''],
      requireImages = True\<rparr>"

definition example_stringify :: "jval \<Rightarrow> string" where
  "example_stringify j =
     (case j of
        JObj kv \<Rightarrow>
          (case map_of kv ''images_urls'' of
             Some (JArr xs) \<Rightarrow> concat (map (\<lambda>x. case x of JStr s \<Rightarrow> s | _ \<Rightarrow> []) xs)
           | _ \<Rightarrow> [])
      | _ \<Rightarrow> [])"

definition empty_page :: ApiResponse where
  "empty_page = \<lparr>data = Some [], meta = None\<rparr>"

text \<open>
  The stand-in for the conversion of a number to text writes a natural number in
  decimal digits. On the example disk the directory \<open>uploads/autos\<close> exists, a
  directory can be created, and a file can be written where there is no directory: not
  at \<open>uploads\<close>, \<open>uploads/autos\<close> or the directory \<open>uploads/autos/n\<close> of a vehicle.
\<close>

function decimal :: "int \<Rightarrow> string" where
  "decimal n =
     (if n < 10 then [''0123456789'' ! nat n]
      else decimal (n div 10) @ [''0123456789'' ! nat (n mod 10)])"
  by pat_completeness auto
termination
  by (relation "measure nat") auto

definition example_numToString :: "rat \<Rightarrow> string" where
  "example_numToString x =
     (if 0 \<le> x \<and> x = of_int \<lfloor>x\<rfloor> then decimal \<lfloor>x\<rfloor> else ''#'')"

definition example_is_dir :: "string \<Rightarrow> bool" where
  "example_is_dir path =
     (path \<in> set [''.'', ''uploads'', ''uploads/autos'']
      \<or> (startsWith path ''uploads/autos/'' \<and> length (split_slash path) = 3))"

definition example_writeFileSync :: "string \<Rightarrow> string \<Rightarrow> unit outcome" where
  "example_writeFileSync path body =
     (if example_is_dir path then
        Threw ''EISDIR: illegal operation on a directory, open''
      else Returned ())"

definition example_env :: env where
  "example_env =
     \<lparr>filterConfig = example_config, numToString = example_numToString,
      toISOString = (\<lambda>t. ''T''), json_stringify = example_stringify, sha256_hex = (\<lambda>s. s),
      clock_now = 1000000000, http_get = (\<lambda>url. Returned ''bytes''),
      imagesPath = ''./uploads'',
      fs_existsSync = (\<lambda>path. path \<in> set [''.'', ''uploads'', ''uploads/autos'']),
      fs_mkdirSync = (\<lambda>path. Returned ()), fs_writeFileSync = example_writeFileSync,
      apiKey = ''key'', api_page = (\<lambda>page perPage. Returned empty_page), maxPages = 500\<rparr>"

definition example_vehicle :: AsofixVehicle where
  "example_vehicle =
     \<lparr>av_id = ''A1'', brand_name = Some ''Toyota'', model_name = Some ''Corolla'',
      version = None, description = None, year = Some 2020, kilometres = Some 35000,
      license_plate = Some ''AB123CD'', origin = None, car_condition = Some ''used'',
      car_transmission = None, car_fuel_type = None, car_segment = None,
      price = Some \<lparr>list_price = Some 5000, currency_name = Some ''USD''\<rparr>, colors = None,
      stocks = Some [\<lparr>stock_status = Some ''ACTIVO'', branch_office_name = Some ''Casa Central'',
                      location_name = Some ''Central Branch''\<rparr>],
      images = Some [Some ''http://x/th-b.jpg'', Some ''http://x/th-a.jpg''],
      brand_id = None, model_id = None\<rparr>"

definition example_row :: vehicle_row where
  "example_row =
     \<lparr>col_id = 1, col_asofix_id = ''A1'', col_title = ''Toyota Corolla'', col_content = Some [],
      col_status = Published, col_year = Some 2020, col_kilometres = Some 35000,
      col_license_plate = Some ''AB123CD'', col_price_usd = Some 5000, col_price_ars = None,
      col_featured_image_id = None, col_created_at = Some 5, col_updated_at = Some 5,
      col_last_synced_at = Some 5, col_asofix_updated_at = Some 5,
      col_version_hash = Some ''http://x/th-a.jpghttp://x/th-b.jpg'',
      col_additional_data = DObj []\<rparr>"

definition example_world :: world where
  "example_world =
     \<lparr>vehicles = [example_row], vehicle_images = [], pending_images = [], taxonomy_terms = [],
      vehicle_taxonomies = [], next_vehicle_id = 2, next_image_id = 1, next_pending_id = 1,
      next_term_id = 1, next_vt_id = 1, files = [], http_log = []\<rparr>"

definition example_run :: RunState where
  "example_run =
     \<lparr>validVehicleIds = [], fase1Processed = 0, fase1Created = 0, fase1Updated = 0,
      fase1Errors = 0, fase1Filtered = 0, fase1Archived = 0\<rparr>"

text \<open>An attempt of \<open>processVehicle\<close> that throws every time.\<close>

definition always_throws :: "nat \<Rightarrow> world \<Rightarrow> ProcessResult outcome \<times> world" where
  "always_throws n w = (Threw ''ECONNRESET'', w)"


text \<open>
  A configuration that blocks the status \<open>activo\<close>, and the record without its
  license plate.
\<close>

definition activo_config :: FilterConfig where
  "activo_config = example_config\<lparr>blockedStatuses := [''activo'']\<rparr>"

definition vehicle_without_plate :: AsofixVehicle where
  "vehicle_without_plate = example_vehicle\<lparr>license_plate := None\<rparr>"

text \<open>
  The record with an offer at the location \<open>Central Branch\<close> of the branch office
  \<open>Dakota Motors\<close>.
\<close>

definition dakota_branch_vehicle :: AsofixVehicle where
  "dakota_branch_vehicle =
     example_vehicle\<lparr>stocks :=
       Some [\<lparr>stock_status = Some ''ACTIVO'', branch_office_name = Some ''Dakota Motors'',
              location_name = Some ''Central Branch''\<rparr>]\<rparr>"

text \<open>A run whose tracker holds the id of another vehicle.\<close>

definition tracking_run :: RunState where
  "tracking_run = example_run\<lparr>validVehicleIds := [''Z9'']\<rparr>"

text \<open>
  The store with the flag \<open>keep_published\<close> on the vehicle, the store in which the
  vehicle has no license plate, and the store in which it is archived.
\<close>

definition keep_world :: world where
  "keep_world =
     example_world\<lparr>vehicles :=
       [example_row\<lparr>col_additional_data := DObj [(''keep_published'', JBool True)]\<rparr>]\<rparr>"

definition noplate_world :: world where
  "noplate_world = example_world\<lparr>vehicles := [example_row\<lparr>col_license_plate := None\<rparr>]\<rparr>"

definition archived_example_row :: vehicle_row where
  "archived_example_row =
     example_row\<lparr>col_status := Archived,
                 col_additional_data := DObj [(''filter_reason'', JStr ''not_in_valid_set'')]\<rparr>"

definition archived_world :: world where
  "archived_world = example_world\<lparr>vehicles := [archived_example_row]\<rparr>"

text \<open>An API whose pages hold the example record.\<close>

definition feed_page :: ApiResponse where
  "feed_page = \<lparr>data = Some [example_vehicle], meta = None\<rparr>"

definition feed_env :: env where
  "feed_env = example_env\<lparr>api_page := (\<lambda>page perPage. Returned feed_page)\<rparr>"

text \<open>An API whose every page request fails.\<close>

definition offline_env :: env where
  "offline_env = example_env\<lparr>api_page := (\<lambda>page perPage. Threw ''ETIMEDOUT'')\<rparr>"

text \<open>The record after its only offer was reserved.\<close>

definition reserved_vehicle :: AsofixVehicle where
  "reserved_vehicle =
     example_vehicle\<lparr>stocks :=
       Some [\<lparr>stock_status = Some ''RESERVADO'', branch_office_name = Some ''Casa Central'',
              location_name = Some ''Central Branch''\<rparr>]\<rparr>"

text \<open>
  An environment in which every download fails, and queues of pending images: one
  entry, and the same URL twice around another one.
\<close>

definition failing_env :: env where
  "failing_env = example_env\<lparr>http_get := (\<lambda>url. Threw ''ETIMEDOUT'')\<rparr>"

definition example_pending :: pending_row where
  "example_pending =
     \<lparr>pend_id = 1, pend_vehicle_id = 1, pend_url = ''http://x/th-a.jpg'',
      pend_created_at = Some 5\<rparr>"

definition pending_world :: world where
  "pending_world = example_world\<lparr>pending_images := [example_pending], next_pending_id := 2\<rparr>"

definition twice_world :: world where
  "twice_world =
     example_world
       \<lparr>pending_images :=
          [example_pending,
           example_pending\<lparr>pend_id := 2, pend_url := ''http://x/th-b.jpg''\<rparr>,
           example_pending\<lparr>pend_id := 3\<rparr>],
        next_pending_id := 4\<rparr>"

section \<open>Strings: the tables of the letters\<close>

text \<open>
  The capital letters of the tables are the code units 65 to 90, 192 to 214 and 216 to
  222, and each small letter is 32 above its capital.
\<close>

lemma letters_upper:
  "code_points_of upper_letters = [65..<91] @ [192..<215] @ [216..<223]"
  by code_simp

lemma letters_lower:
  "code_points_of lower_letters = map (\<lambda>n. n + 32) (code_points_of upper_letters)"
  by code_simp

section \<open>Filter Evaluator: order of the checks\<close>

lemma str_includes_Nil: "str_includes s [] = True"
  by (cases s) simp_all

lemma no_location_hit:
  "\<not> truthy (location_name s) \<Longrightarrow> location_hit s b \<Longrightarrow> branch_hit s b"
  by (auto simp: truthy_def location_hit_def branch_hit_def or_else_def toLowerCase_def
      str_includes_Nil split: option.splits)

lemma code_hit_fallback:
  assumes "\<not> truthy (location_name s) \<or> (branch_hit s b \<longrightarrow> location_hit s b)"
  shows "(location_hit s b \<or> branch_hit s b) = fallback_hit s b"
  using assms no_location_hit [of s b] by (auto simp: fallback_hit_def)

lemma blocked_office_loop_eq:
  assumes "\<not> truthy (location_name s) \<or> list_all (\<lambda>b. branch_hit s b \<longrightarrow> location_hit s b) bs"
  shows "blocked_office_loop s bs =
     (if list_ex (fallback_hit s) bs then Some (location_reason s bs) else None)"
  using assms
proof (induction bs)
  case Nil
  then show ?case by simp
next
  case (Cons b bs)
  have h: "(location_hit s b \<or> branch_hit s b) = fallback_hit s b"
    using Cons.prems by (intro code_hit_fallback) auto
  have r: "\<not> truthy (location_name s) \<or> list_all (\<lambda>b. branch_hit s b \<longrightarrow> location_hit s b) bs"
    using Cons.prems by auto
  show ?case
  proof (cases "fallback_hit s b")
    case True
    then show ?thesis
      using h by (auto simp: location_reason_def location_hit_def branch_hit_def Let_def)
  next
    case False
    then have "\<not> location_hit s b" "\<not> branch_hit s b"
      using h by auto
    then show ?thesis
      using False Cons.IH [OF r]
      by (simp add: location_reason_def location_hit_def branch_hit_def Let_def)
  qed
qed

lemma blocked_status_loop_eq:
  "blocked_status_loop s bs =
     (if list_ex (status_hit s) bs then Some (status_reason s bs) else None)"
  by (induction bs) (auto simp: status_reason_def status_hit_def)

lemma trim_Nil: "trim [] = []"
  by (simp add: trim_def)

lemma blank_plate_eq: "blank_plate (license_plate v) = fails_plate v"
  by (auto simp: blank_plate_def fails_plate_def truthy_def or_else_def trim_Nil
      split: option.splits)

lemma image_url_present_eq: "image_url_present u = nonblank_url u"
  by (auto simp: image_url_present_def nonblank_url_def truthy_def or_else_def trim_Nil
      split: option.splits)

lemma hasImages_eq:
  "hasImages v = list_ex nonblank_url (case images v of None \<Rightarrow> [] | Some imgs \<Rightarrow> imgs)"
  by (cases "images v") (auto simp: hasImages_def image_url_present_eq list_ex_iff)

text \<open>
  C1, as the code has it. For a record on whose active offer the branch office name is
  consulted as fallback only, the verdict of \<open>shouldOmitVehicle\<close> is the one of the
  first check that fails, in the order: (1) no stock entry whose status is \<open>ACTIVO\<close> up
  to case; (2) a configured blocked office occurs, up to case, in the location name of
  the active offer or, as fallback when the offer has no location name, in its branch
  office name; (3) the list price is not greater than the configured minimum; (4) the
  status of the active offer equals a configured blocked status up to case; (5) the
  license plate is missing or blank; (6) images are required and no image has a
  non-blank URL. The record is admitted when no check fails. The verdict is a function
  of the record and the configuration alone.
\<close>

theorem shouldOmitVehicle_first_failing_check:
  assumes "branch_only_as_fallback cfg v"
  shows "shouldOmitVehicle numStr cfg v
       = verdict_of_check numStr cfg v (first_failing_check cfg v)"
proof (cases "find_active_stock v")
  case None
  then show ?thesis
    by (simp add: shouldOmitVehicle_def verdict_of_check_def first_failing_check_def
        reason_of_check_def)
next
  case (Some s)
  have "\<not> truthy (location_name s)
      \<or> list_all (\<lambda>b. branch_hit s b \<longrightarrow> location_hit s b) (blockedBranchOffices cfg)"
    using assms Some by (simp add: branch_only_as_fallback_def)
  note loop = blocked_office_loop_eq [OF this]
  show ?thesis
    using Some
    by (simp add: shouldOmitVehicle_def verdict_of_check_def first_failing_check_def
        reason_of_check_def loop blocked_status_loop_eq blank_plate_eq
        hasImages_eq fails_location_def fails_price_def fails_status_def fails_images_def
        not_less)
qed

theorem shouldOmitVehicle_first_failing_check_witness:
  "branch_only_as_fallback activo_config vehicle_without_plate
   \<and> shouldOmitVehicle (numToString example_env) activo_config vehicle_without_plate
     = \<lparr>omit = True, reason = Some ''Estado bloqueado: ACTIVO (filtro: activo)''\<rparr>"
proof -
  have h: "branch_only_as_fallback activo_config vehicle_without_plate"
    by code_simp
  have "first_failing_check activo_config vehicle_without_plate = Some BlockedStatus"
    by code_simp
  moreover have "reason_of_check (numToString example_env) activo_config vehicle_without_plate
      BlockedStatus = ''Estado bloqueado: ACTIVO (filtro: activo)''"
    by code_simp
  ultimately show ?thesis
    using h shouldOmitVehicle_first_failing_check [OF h, of "numToString example_env"]
    by (simp add: verdict_of_check_def)
qed

text \<open>
  C1 as stated compares the status in check (4) exactly. With the blocked status
  \<open>activo\<close> and an active offer of status \<open>ACTIVO\<close> on a record without license plate,
  the first check to fail in that reading is (5), while the code reports check (4).
\<close>

theorem shouldOmitVehicle_exact_status_counterexample:
  "first_failing_check_exact activo_config vehicle_without_plate = Some MissingPlate
   \<and> reason (shouldOmitVehicle (numToString example_env) activo_config vehicle_without_plate)
       = Some ''Estado bloqueado: ACTIVO (filtro: activo)''"
  by code_simp

text \<open>
  The records left out of the theorem above. The source tests the branch office name
  also when the offer has a location name that does not contain the office (lines 46 to
  52, under the comment that the branch office name is the fallback when the location
  name is not available). An offer at the location \<open>Central Branch\<close> of the branch
  office \<open>Dakota Motors\<close> passes the six checks as they are written and is omitted by
  the code, with the field \<open>branch_office_name\<close> in the reason.
\<close>

lemma branch_office_beside_location:
  "\<not> branch_only_as_fallback example_config dakota_branch_vehicle
   \<and> first_failing_check example_config dakota_branch_vehicle = None
   \<and> shouldOmitVehicle (numToString example_env) example_config dakota_branch_vehicle
       = \<lparr>omit = True,
          reason = Some ''Concesionaria bloqueada: Dakota Motors (filtro: Dakota, campo: branch_office_name)''\<rparr>"
  by code_simp

section \<open>Cleanup is skipped on an empty tracker\<close>

text \<open>
  C2. When the Valid-Set Tracker is empty at the start of the cleanup phase, the phase
  changes nothing: the store and the run are returned as they were, so no published
  vehicle is archived, however old its last update.
\<close>

theorem cleanup_skipped_on_empty_tracker:
  "validVehicleIds run = [] \<Longrightarrow> cleanup_phase e (run, w) = (run, w)"
  by (simp add: cleanup_phase_def)

theorem cleanup_skipped_on_empty_tracker_witness:
  "validVehicleIds example_run = []
   \<and> cleanup_phase example_env (example_run, example_world) = (example_run, example_world)"
proof -
  have h: "validVehicleIds example_run = []"
    by (simp add: example_run_def)
  show ?thesis
    using h cleanup_skipped_on_empty_tracker [OF h, of example_env example_world] by simp
qed

section \<open>Version fingerprint: order of the images\<close>

lemma sort_cong_mset: "mset xs = mset (ys :: string list) \<Longrightarrow> sort xs = sort ys"
  by (rule properties_for_sort) simp_all

lemma image_urls_of_perm:
  assumes "mset imgs' = mset imgs"
  shows "mset (image_urls_of (v\<lparr>images := Some imgs'\<rparr>))
       = mset (image_urls_of (v\<lparr>images := Some imgs\<rparr>))"
  using assms by (simp add: image_urls_of_def)

text \<open>
  C5. For a record whose \<open>images\<close> array is \<open>imgs\<close>, replacing the array by any
  permutation \<open>imgs'\<close> of it leaves \<open>generateVersionHash\<close> unchanged, whatever the
  serialisation and the digest are.
\<close>

theorem version_hash_permutation_invariant:
  assumes "images v = Some imgs" and "mset imgs' = mset imgs"
  shows "generateVersionHash e (v\<lparr>images := Some imgs'\<rparr>) = generateVersionHash e v"
proof -
  have v: "v = v\<lparr>images := Some imgs\<rparr>"
    using assms(1) by simp
  have "sort (image_urls_of (v\<lparr>images := Some imgs'\<rparr>))
      = sort (image_urls_of (v\<lparr>images := Some imgs\<rparr>))"
    by (rule sort_cong_mset) (rule image_urls_of_perm [OF assms(2)])
  then have "relevantData (v\<lparr>images := Some imgs'\<rparr>) = relevantData (v\<lparr>images := Some imgs\<rparr>)"
    by (simp add: relevantData_def Let_def title_of_def list_price_of_def first_color_def
        hash_stock_status_def)
  then show ?thesis
    using v by (simp add: generateVersionHash_def)
qed

theorem version_hash_permutation_invariant_witness:
  "generateVersionHash example_env
     (example_vehicle\<lparr>images := Some [Some ''http://x/th-a.jpg'', Some ''http://x/th-b.jpg'']\<rparr>)
   = generateVersionHash example_env example_vehicle"
proof -
  have a: "images example_vehicle = Some [Some ''http://x/th-b.jpg'', Some ''http://x/th-a.jpg'']"
    by (simp add: example_vehicle_def)
  have b: "mset [Some ''http://x/th-a.jpg'', Some ''http://x/th-b.jpg'']
         = mset [Some ''http://x/th-b.jpg'', Some ''http://x/th-a.jpg'']"
    by simp
  show ?thesis
    by (rule version_hash_permutation_invariant [OF a b])
qed

section \<open>A record that fails to write stays in the tracker\<close>

lemma tracker_add_mem: "x \<in> set (validVehicleIds (tracker_add x run))"
  by (simp add: tracker_add_def)

lemma keep_if_admissible_adds:
  "\<not> omit (shouldOmitVehicle (numToString e) (filterConfig e) v) \<Longrightarrow> id_known (asofixId_of v)
   \<Longrightarrow> asofixId_of v \<in> set (validVehicleIds (keep_if_admissible e v run))"
  by (simp add: keep_if_admissible_def tracker_add_mem)

lemma after_result_failed:
  "\<not> success result \<Longrightarrow> \<not> omit (shouldOmitVehicle (numToString e) (filterConfig e) v)
   \<Longrightarrow> id_known (asofixId_of v)
   \<Longrightarrow> asofixId_of v \<in> set (validVehicleIds (after_result e v result run))"
  by (simp add: after_result_def Let_def keep_if_admissible_adds)

lemma retries_exhausted:
  "retryCount \<ge> maxRetries \<Longrightarrow> process_with_retries e attempt v retryCount (run, w) = (run, w)"
  by (simp add: process_with_retries.simps)

lemma failed_record_kept_aux:
  assumes adm: "\<not> omit (shouldOmitVehicle (numToString e) (filterConfig e) v)"
    and known: "id_known (asofixId_of v)"
  shows "fails_after attempt n k w \<Longrightarrow> n + k = maxRetries \<Longrightarrow> k > 0
    \<Longrightarrow> asofixId_of v
          \<in> set (validVehicleIds (fst (process_with_retries e attempt v n (run, w))))"
proof (induction k arbitrary: n w run)
  case 0
  then show ?case by simp
next
  case (Suc k)
  have n: "n < maxRetries"
    using Suc.prems by simp
  obtain r w1 where a: "attempt n w = (r, w1)"
    by (cases "attempt n w")
  show ?case
  proof (cases r)
    case (Returned result)
    with a Suc.prems(1) have "\<not> success result"
      by simp
    with a Returned n show ?thesis
      by (subst process_with_retries.simps) (simp add: after_result_failed [OF _ adm known])
  next
    case (Threw msg)
    with a Suc.prems(1) have f: "fails_after attempt (n + 1) k w1"
      by simp
    show ?thesis
    proof (cases "k = 0")
      case True
      then have "n + 1 \<ge> maxRetries"
        using Suc.prems(2) by simp
      with a Threw n show ?thesis
        by (subst process_with_retries.simps)
           (simp add: retries_exhausted keep_if_admissible_adds [OF adm known])
    next
      case False
      then have lt: "\<not> n + 1 \<ge> maxRetries"
        using Suc.prems(2) by simp
      have "asofixId_of v
          \<in> set (validVehicleIds (fst (process_with_retries e attempt v (n + 1) (run, w1))))"
        using Suc.IH [OF f] Suc.prems(2) False by simp
      with a Threw n lt show ?thesis
        by (subst process_with_retries.simps) simp
    qed
  qed
qed

text \<open>
  C4. If the processing of a record fails terminally (an attempt returns
  \<open>success = false\<close>, or every attempt up to the retry ceiling throws), the Filter
  Evaluator admits the record, and its id is known (not empty and not the placeholder
  \<open>ID_DESCONOCIDO\<close>), then the id is in the Valid-Set Tracker after the record.
\<close>

theorem failed_admissible_record_kept:
  assumes "fails_terminally attempt w"
    and "\<not> omit (shouldOmitVehicle (numToString e) (filterConfig e) v)"
    and "av_id v \<noteq> []" and "av_id v \<noteq> ''ID_DESCONOCIDO''"
  shows "av_id v \<in> set (validVehicleIds (fst (process_with_retries e attempt v 0 (run, w))))"
proof -
  have k: "id_known (asofixId_of v)" and i: "asofixId_of v = av_id v"
    using assms(3,4) by (simp_all add: id_known_def asofixId_of_def)
  show ?thesis
    using failed_record_kept_aux [OF assms(2) k, of attempt 0 maxRetries w run] assms(1) i
    by (simp add: fails_terminally_def maxRetries_def)
qed

theorem failed_admissible_record_kept_witness:
  "fails_terminally always_throws example_world
   \<and> \<not> omit (shouldOmitVehicle (numToString example_env) (filterConfig example_env) example_vehicle)
   \<and> av_id example_vehicle
       \<in> set (validVehicleIds (fst (process_with_retries example_env always_throws
                example_vehicle 0 (example_run, example_world))))"
proof -
  have a: "fails_terminally always_throws example_world"
    by (simp add: fails_terminally_def maxRetries_def always_throws_def numeral_3_eq_3)
  have b: "\<not> omit (shouldOmitVehicle (numToString example_env) (filterConfig example_env)
             example_vehicle)"
    by code_simp
  have c: "av_id example_vehicle \<noteq> []" "av_id example_vehicle \<noteq> ''ID_DESCONOCIDO''"
    by (simp_all add: example_vehicle_def)
  show ?thesis
    using a b failed_admissible_record_kept [OF a b c, of example_run] by simp
qed

section \<open>Image Pipeline: outcomes of a download\<close>

lemma downloadImage_existing:
  assumes "find (\<lambda>i. img_vehicle_id i = vid \<and> img_url i = url) (vehicle_images w) = Some i"
  shows "downloadImage e url vid w =
           (\<lparr>dl_success = True,
             dl_message = ''Imagen ya existe'' @ msg_vehicle @ numToString e (of_nat vid),
             dl_imageId = Some (img_id i)\<rparr>,
            delete_pending vid url w)"
  using assms by (simp add: downloadImage_def)

lemma downloadImage_no_directory:
  assumes "find (\<lambda>i. img_vehicle_id i = vid \<and> img_url i = url) (vehicle_images w) = None"
    and "ensure_vehicleDir e vid = Threw msg"
  shows "downloadImage e url vid w = (download_failed msg, w)"
  using assms by (simp add: downloadImage_def)

lemma downloadImage_threw:
  assumes "find (\<lambda>i. img_vehicle_id i = vid \<and> img_url i = url) (vehicle_images w) = None"
    and "ensure_vehicleDir e vid = Returned ()"
    and "http_get e (highResUrl url) = Threw msg"
  shows "downloadImage e url vid w =
           (download_failed msg, w\<lparr>http_log := http_log w @ [download_of url vid]\<rparr>)"
  using assms by (simp add: downloadImage_def)

lemma downloadImage_not_written:
  assumes "find (\<lambda>i. img_vehicle_id i = vid \<and> img_url i = url) (vehicle_images w) = None"
    and "ensure_vehicleDir e vid = Returned ()"
    and "http_get e (highResUrl url) = Returned body"
    and "fs_writeFileSync e (image_file_path e url vid) body = Threw msg"
  shows "downloadImage e url vid w =
           (download_failed msg, w\<lparr>http_log := http_log w @ [download_of url vid]\<rparr>)"
  using assms by (simp add: downloadImage_def)

lemma downloadImage_no_vehicle:
  assumes "find (\<lambda>i. img_vehicle_id i = vid \<and> img_url i = url) (vehicle_images w) = None"
    and "can_store e vid url body"
    and "row_by_id w vid = None"
  shows "downloadImage e url vid w =
           (download_failed constraint_message,
            w\<lparr>http_log := http_log w @ [download_of url vid],
              files := write_file (image_file_path e url vid) body (files w)\<rparr>)"
  using assms by (simp add: downloadImage_def row_by_id_def can_store_def)

lemma downloadImage_stored:
  assumes "find (\<lambda>i. img_vehicle_id i = vid \<and> img_url i = url) (vehicle_images w) = None"
    and "can_store e vid url body"
    and "row_by_id w vid = Some x"
  shows "downloadImage e url vid w =
           (\<lparr>dl_success = True,
             dl_message = ''Imagen descargada'' @ msg_vehicle @ numToString e (of_nat vid),
             dl_imageId = Some (next_image_id w)\<rparr>,
            delete_pending vid url (after_store e url vid body w))"
  using assms
  by (simp add: downloadImage_def row_by_id_def after_store_def new_image_row_def Let_def
      can_store_def)

lemma after_store_images [simp]:
  "vehicle_images (after_store e url vid body w) = vehicle_images w @ [new_image_row e url vid w]"
  by (simp add: after_store_def set_featured_if_first_def insert_image_def update_vehicles_def)

lemma after_store_pending [simp]:
  "pending_images (after_store e url vid body w) = pending_images w"
  by (simp add: after_store_def set_featured_if_first_def insert_image_def update_vehicles_def)

lemma after_store_http_log [simp]:
  "http_log (after_store e url vid body w) = http_log w @ [download_of url vid]"
  by (simp add: after_store_def set_featured_if_first_def insert_image_def update_vehicles_def)

lemma after_store_vehicles:
  "vehicles (after_store e url vid body w) =
     (if images_of_vehicle w vid = [] then
        map (\<lambda>r. if col_id r = vid then
               auto_touch (clock_now e) (\<lambda>r. r\<lparr>col_featured_image_id := Some (next_image_id w)\<rparr>) r
             else r) (vehicles w)
      else vehicles w)"
  by (simp add: after_store_def set_featured_if_first_def insert_image_def update_vehicles_def
      images_of_vehicle_def new_image_row_def)

lemma delete_pending_fields [simp]:
  "vehicles (delete_pending vid url w) = vehicles w"
  "vehicle_images (delete_pending vid url w) = vehicle_images w"
  "http_log (delete_pending vid url w) = http_log w"
  "files (delete_pending vid url w) = files w"
  "pending_images (delete_pending vid url w)
     = filter (\<lambda>p. \<not> (pend_vehicle_id p = vid \<and> pend_url p = url)) (pending_images w)"
  by (simp_all add: delete_pending_def)

lemma download_failed_fields [simp]:
  "dl_success (download_failed msg) = False"
  "dl_imageId (download_failed msg) = None"
  by (simp_all add: download_failed_def)

text \<open>
  Every call of \<open>downloadImage\<close> ends in one of five ways: the image row exists; the
  directory cannot be created; the download or the writing of the file throws; the
  vehicle does not exist; the image is stored.
\<close>

lemma downloadImage_outcomes:
  obtains
    (existing) i where "find (\<lambda>i. img_vehicle_id i = vid \<and> img_url i = url) (vehicle_images w) = Some i"
      "downloadImage e url vid w =
           (\<lparr>dl_success = True,
             dl_message = ''Imagen ya existe'' @ msg_vehicle @ numToString e (of_nat vid),
             dl_imageId = Some (img_id i)\<rparr>,
            delete_pending vid url w)"
  | (no_directory) msg where "find (\<lambda>i. img_vehicle_id i = vid \<and> img_url i = url) (vehicle_images w) = None"
      "downloadImage e url vid w = (download_failed msg, w)"
  | (threw) msg where "find (\<lambda>i. img_vehicle_id i = vid \<and> img_url i = url) (vehicle_images w) = None"
      "downloadImage e url vid w =
           (download_failed msg, w\<lparr>http_log := http_log w @ [download_of url vid]\<rparr>)"
  | (no_vehicle) body where "find (\<lambda>i. img_vehicle_id i = vid \<and> img_url i = url) (vehicle_images w) = None"
      "downloadImage e url vid w =
           (download_failed constraint_message,
            w\<lparr>http_log := http_log w @ [download_of url vid],
              files := write_file (image_file_path e url vid) body (files w)\<rparr>)"
  | (stored) body where "find (\<lambda>i. img_vehicle_id i = vid \<and> img_url i = url) (vehicle_images w) = None"
      "can_store e vid url body"
      "downloadImage e url vid w =
           (\<lparr>dl_success = True,
             dl_message = ''Imagen descargada'' @ msg_vehicle @ numToString e (of_nat vid),
             dl_imageId = Some (next_image_id w)\<rparr>,
            delete_pending vid url (after_store e url vid body w))"
proof (cases "find (\<lambda>i. img_vehicle_id i = vid \<and> img_url i = url) (vehicle_images w)")
  case (Some i)
  show ?thesis by (rule existing [OF Some downloadImage_existing [OF Some]])
next
  case None
  show ?thesis
  proof (cases "ensure_vehicleDir e vid")
    case (Threw msg)
    show ?thesis by (rule no_directory [OF None downloadImage_no_directory [OF None Threw]])
  next
    case dir: (Returned u)
    then have dir: "ensure_vehicleDir e vid = Returned ()"
      by simp
    show ?thesis
    proof (cases "http_get e (highResUrl url)")
      case (Threw msg)
      show ?thesis by (rule threw [OF None downloadImage_threw [OF None dir Threw]])
    next
      case (Returned body)
      show ?thesis
      proof (cases "fs_writeFileSync e (image_file_path e url vid) body")
        case (Threw msg)
        show ?thesis
          by (rule threw [OF None downloadImage_not_written [OF None dir Returned Threw]])
      next
        case wr: (Returned u)
        have ok: "can_store e vid url body"
          using dir Returned wr by (simp add: can_store_def)
        show ?thesis
        proof (cases "row_by_id w vid")
          case N: None
          show ?thesis by (rule no_vehicle [OF None downloadImage_no_vehicle [OF None ok N]])
        next
          case (Some x)
          show ?thesis by (rule stored [OF None ok downloadImage_stored [OF None ok Some]])
        qed
      qed
    qed
  qed
qed

text \<open>
  C7, as the code has it. \<open>downloadImage\<close> deletes the pending rows of the vehicle and
  the URL exactly when it reports success, that is when the image was downloaded and
  stored or was already there. When it reports a failure (a statement inside the
  \<open>try\<close> throws), \<open>pending_images\<close> and \<open>vehicle_images\<close> are as before: the entry
  stays in the queue.
\<close>

theorem downloadImage_pending_rows:
  assumes "downloadImage e url vid w = (r, w')"
  shows "pending_images w' =
           (if dl_success r then
              filter (\<lambda>p. \<not> (pend_vehicle_id p = vid \<and> pend_url p = url)) (pending_images w)
            else pending_images w)
         \<and> (\<not> dl_success r \<longrightarrow> vehicle_images w' = vehicle_images w)"
  using assms by (cases rule: downloadImage_outcomes [of vid url w e]) auto

theorem downloadImage_pending_rows_witness:
  "dl_success (fst (downloadImage example_env ''http://x/th-a.jpg'' 1 pending_world))
   \<and> pending_images (snd (downloadImage example_env ''http://x/th-a.jpg'' 1 pending_world)) = []"
proof -
  have s: "dl_success (fst (downloadImage example_env ''http://x/th-a.jpg'' 1 pending_world))"
    by code_simp
  have res: "downloadImage example_env ''http://x/th-a.jpg'' 1 pending_world
      = (fst (downloadImage example_env ''http://x/th-a.jpg'' 1 pending_world),
         snd (downloadImage example_env ''http://x/th-a.jpg'' 1 pending_world))"
    by simp
  have p: "filter (\<lambda>p. \<not> (pend_vehicle_id p = 1 \<and> pend_url p = ''http://x/th-a.jpg''))
      (pending_images pending_world) = []"
    by (simp add: pending_world_def example_pending_def)
  show ?thesis
    using downloadImage_pending_rows [OF res] s p by simp
qed

text \<open>
  C7 as stated also deletes the pending row on a terminal download failure. With a
  download that throws, \<open>downloadImage\<close> reports the failure and the row of the
  vehicle and the URL is still in \<open>pending_images\<close>, also after the whole queue was
  drained.
\<close>

theorem failed_download_keeps_pending_counterexample:
  "\<not> dl_success (fst (downloadImage failing_env ''http://x/th-a.jpg'' 1 pending_world))
   \<and> pending_images (snd (downloadImage failing_env ''http://x/th-a.jpg'' 1 pending_world))
       = [example_pending]
   \<and> pending_images (snd (downloadAllImages failing_env pending_world)) = [example_pending]"
  by code_simp

section \<open>Featured image\<close>

lemma featured_ok_cong:
  "vehicle_images w' = vehicle_images w \<Longrightarrow> featured_ok w' = featured_ok w"
  by (intro ext) (simp add: featured_ok_def featured_rows_def)

lemma featured_inv_cong:
  "vehicles w' = vehicles w \<Longrightarrow> vehicle_images w' = vehicle_images w
   \<Longrightarrow> featured_inv w' = featured_inv w"
  using featured_ok_cong [of w' w] by (simp add: featured_inv_def)

lemma featured_rows_none:
  "images_of_vehicle w vid = [] \<Longrightarrow> featured_rows w vid = []"
  by (auto simp: images_of_vehicle_def featured_rows_def filter_empty_conv)

lemma col_id_auto_touch:
  "col_id (auto_touch t (\<lambda>r. r\<lparr>col_featured_image_id := x\<rparr>) r) = col_id r"
  by (simp add: auto_touch_def)

lemma featured_auto_touch:
  "col_featured_image_id (auto_touch t (\<lambda>r. r\<lparr>col_featured_image_id := x\<rparr>) r) = x"
proof (cases "r\<lparr>col_featured_image_id := x\<rparr> = r")
  case True
  then have "col_featured_image_id r = col_featured_image_id (r\<lparr>col_featured_image_id := x\<rparr>)"
    by (rule arg_cong [OF sym])
  then have "col_featured_image_id r = x"
    by simp
  with True show ?thesis
    by (simp add: auto_touch_def)
next
  case False
  then show ?thesis
    by (simp add: auto_touch_def)
qed

lemma featured_rows_after_store:
  "featured_rows (after_store e url vid body w) = featured_rows w"
  by (intro ext) (simp add: featured_rows_def new_image_row_def)

lemma featured_ok_after_store:
  "featured_ok (after_store e url vid body w) = featured_ok w"
  by (intro ext) (simp add: featured_ok_def featured_rows_after_store)

lemma featured_inv_after_store:
  assumes "featured_inv w"
  shows "featured_inv (after_store e url vid body w)"
proof (cases "images_of_vehicle w vid = []")
  case False
  with assms show ?thesis
    by (simp add: featured_inv_def featured_ok_after_store after_store_vehicles)
next
  case True
  let ?f = "\<lambda>r. if col_id r = vid then
          auto_touch (clock_now e) (\<lambda>r. r\<lparr>col_featured_image_id := Some (next_image_id w)\<rparr>) r
        else r"
  have n: "featured_rows w vid = []"
    using True by (rule featured_rows_none)
  have step: "featured_ok w (?f r)" if "featured_ok w r" for r
    using that n by (simp add: featured_ok_def col_id_auto_touch)
  have "list_all (featured_ok w) (map ?f (vehicles w))"
    using assms step unfolding featured_inv_def list_all_iff by (simp del: if_image_distrib)
  then show ?thesis
    using True by (simp add: featured_inv_def featured_ok_after_store after_store_vehicles)
qed

lemma downloadImage_featured_inv:
  assumes inv: "featured_inv w" and dl: "downloadImage e url vid w = (r, w')"
  shows "featured_inv w'"
proof (cases rule: downloadImage_outcomes [of vid url w e])
  case (existing i)
  then have "w' = delete_pending vid url w"
    using dl by simp
  then show ?thesis
    using inv featured_inv_cong [of w' w] by simp
next
  case (no_directory msg)
  then have "w' = w"
    using dl by simp
  then show ?thesis
    using inv by simp
next
  case (threw msg)
  then have "w' = w\<lparr>http_log := http_log w @ [download_of url vid]\<rparr>"
    using dl by simp
  then show ?thesis
    using inv featured_inv_cong [of w' w] by simp
next
  case (no_vehicle body)
  then have "w' = w\<lparr>http_log := http_log w @ [download_of url vid],
              files := write_file (image_file_path e url vid) body (files w)\<rparr>"
    using dl by simp
  then show ?thesis
    using inv featured_inv_cong [of w' w] by simp
next
  case (stored body)
  then have "w' = delete_pending vid url (after_store e url vid body w)"
    using dl by simp
  then show ?thesis
    using featured_inv_after_store [OF inv, of e url vid body]
      featured_inv_cong [of w' "after_store e url vid body w"] by simp
qed

lemma download_job_featured_inv:
  assumes "featured_inv (snd st)"
  shows "featured_inv (snd (download_job e job st))"
proof -
  obtain c w where st: "st = (c, w)"
    by (cases st)
  obtain r w' where d: "downloadImage e (snd job) (fst job) w = (r, w')"
    by (cases "downloadImage e (snd job) (fst job) w")
  have "featured_inv w'"
    using assms st downloadImage_featured_inv [OF _ d] by simp
  then show ?thesis
    by (simp add: download_job_def st d)
qed

lemma fold_download_job_featured_inv:
  "featured_inv (snd st) \<Longrightarrow> featured_inv (snd (fold (download_job e) jobs st))"
proof (induction jobs arbitrary: st)
  case Nil
  then show ?case by simp
next
  case (Cons j jobs)
  have "featured_inv (snd (download_job e j st))"
    using Cons.prems by (rule download_job_featured_inv)
  then have "featured_inv (snd (fold (download_job e) jobs (download_job e j st)))"
    by (rule Cons.IH)
  then show ?case by simp
qed

lemma downloadImage_never_features:
  assumes dl: "downloadImage e url vid w = (r, w')"
  shows "list_all (\<lambda>i. \<not> is_featured i \<or> i \<in> set (vehicle_images w)) (vehicle_images w')"
proof (cases rule: downloadImage_outcomes [of vid url w e])
  case (existing i)
  then have "w' = delete_pending vid url w"
    using dl by simp
  then show ?thesis by (simp add: list_all_iff)
next
  case (no_directory msg)
  then have "w' = w"
    using dl by simp
  then show ?thesis by (simp add: list_all_iff)
next
  case (threw msg)
  then have "w' = w\<lparr>http_log := http_log w @ [download_of url vid]\<rparr>"
    using dl by simp
  then show ?thesis by (simp add: list_all_iff)
next
  case (no_vehicle body)
  then have "w' = w\<lparr>http_log := http_log w @ [download_of url vid],
              files := write_file (image_file_path e url vid) body (files w)\<rparr>"
    using dl by simp
  then show ?thesis by (simp add: list_all_iff)
next
  case (stored body)
  then have "w' = delete_pending vid url (after_store e url vid body w)"
    using dl by simp
  then show ?thesis by (simp add: list_all_iff new_image_row_def)
qed

lemma find_None_image_rows:
  "(find (\<lambda>i. img_vehicle_id i = vid \<and> img_url i = url) (vehicle_images w) = None)
   = (image_rows_for w vid url = [])"
  by (auto simp: find_None_iff image_rows_for_def filter_empty_conv)

lemma find_map_keep:
  "(\<And>x. P (f x) = P x) \<Longrightarrow> find P (map f xs) = map_option f (find P xs)"
  by (induction xs) simp_all

lemma featured_image_after_store:
  assumes row: "row_by_id w vid = Some row"
  shows "featured_image_of (after_store e url vid body w) vid =
           (if images_of_vehicle w vid = [] then Some (next_image_id w)
            else col_featured_image_id row)"
proof (cases "images_of_vehicle w vid = []")
  case False
  then show ?thesis
    using row by (simp add: featured_image_of_def row_by_id_def after_store_vehicles)
next
  case True
  let ?f = "\<lambda>r. if col_id r = vid then
          auto_touch (clock_now e) (\<lambda>r. r\<lparr>col_featured_image_id := Some (next_image_id w)\<rparr>) r
        else r"
  have id: "col_id row = vid"
    using row by (auto simp: row_by_id_def find_Some_iff)
  have k: "(col_id (?f x) = vid) = (col_id x = vid)" for x
    by (simp add: col_id_auto_touch)
  have "find (\<lambda>r. col_id r = vid) (map ?f (vehicles w))
      = map_option ?f (find (\<lambda>r. col_id r = vid) (vehicles w))"
    by (rule find_map_keep) (rule k)
  then have "row_by_id (after_store e url vid body w) vid = Some (?f row)"
    using row True by (simp add: row_by_id_def after_store_vehicles)
  then show ?thesis
    using True id by (simp add: featured_image_of_def featured_auto_touch)
qed

lemma featured_image_delete_pending [simp]:
  "featured_image_of (delete_pending vid url w) v = featured_image_of w v"
  by (simp add: featured_image_of_def row_by_id_def)

lemma stored_image_recorded:
  assumes dl: "downloadImage e url vid w = (r, w')"
    and new: "image_rows_for w vid url = []"
    and row: "row_by_id w vid = Some row"
    and ok: "can_store e vid url body"
  shows "dl_success r \<and> dl_imageId r = Some (next_image_id w)
       \<and> vehicle_images w' = vehicle_images w @ [new_image_row e url vid w]
       \<and> featured_image_of w' vid =
           (if images_of_vehicle w vid = [] then Some (next_image_id w)
            else col_featured_image_id row)"
proof -
  have fn: "find (\<lambda>i. img_vehicle_id i = vid \<and> img_url i = url) (vehicle_images w) = None"
    using new by (simp add: find_None_image_rows)
  have r: "r = \<lparr>dl_success = True,
             dl_message = ''Imagen descargada'' @ msg_vehicle @ numToString e (of_nat vid),
             dl_imageId = Some (next_image_id w)\<rparr>"
    and w': "w' = delete_pending vid url (after_store e url vid body w)"
    using dl downloadImage_stored [OF fn ok row] by simp_all
  show ?thesis
    using featured_image_after_store [OF row, of e url body]
    by (simp add: r w')
qed

lemma downloadImage_vehicles_kept:
  assumes dl: "downloadImage e url vid w = (r, w')"
    and no: "\<not> dl_success r \<or> image_rows_for w vid url \<noteq> []"
  shows "vehicles w' = vehicles w"
proof (cases rule: downloadImage_outcomes [of vid url w e])
  case (existing i)
  then show ?thesis using dl by simp
next
  case (no_directory msg)
  then show ?thesis using dl by simp
next
  case (threw msg)
  then show ?thesis using dl by auto
next
  case (no_vehicle body)
  then show ?thesis using dl by auto
next
  case (stored body)
  then have "dl_success r" "image_rows_for w vid url = []"
    using dl by (auto simp: find_None_image_rows)
  with no show ?thesis by simp
qed

text \<open>
  C10, as the code has it. \<open>downloadImage\<close> never writes \<open>is_featured\<close>: every row
  with \<open>is_featured\<close> after a call was there before it, so the invariant of the claim
  (of the images of a vehicle at most one has \<open>is_featured\<close>, and the vehicle's
  \<open>featured_image_id\<close> refers to it) is kept by a call and by the drain of the queue,
  and is not established by them. The featured image is recorded in the
  \<open>featured_image_id\<close> of the vehicle: when the vehicle exists, has no row for the URL,
  and the image can be stored, the call succeeds and appends the row with the next id
  and \<open>is_featured\<close> false; the \<open>featured_image_id\<close> of the vehicle becomes that id when
  the vehicle had no image row before, and stays what it was otherwise. A call that
  fails, or that finds the row of the URL, changes no row of \<open>vehicles\<close>.
\<close>

theorem featured_image_recorded:
  assumes dl: "downloadImage e url vid w = (r, w')"
  shows "list_all (\<lambda>i. \<not> is_featured i \<or> i \<in> set (vehicle_images w)) (vehicle_images w')
       \<and> (featured_inv w \<longrightarrow> featured_inv w' \<and> featured_inv (snd (downloadAllImages e w)))
       \<and> (image_rows_for w vid url = [] \<and> row_by_id w vid = Some row \<and> can_store e vid url body
            \<longrightarrow> dl_success r \<and> dl_imageId r = Some (next_image_id w)
              \<and> vehicle_images w' = vehicle_images w @ [new_image_row e url vid w]
              \<and> \<not> is_featured (new_image_row e url vid w)
              \<and> featured_image_of w' vid =
                  (if images_of_vehicle w vid = [] then Some (next_image_id w)
                   else col_featured_image_id row))
       \<and> (\<not> dl_success r \<or> image_rows_for w vid url \<noteq> [] \<longrightarrow> vehicles w' = vehicles w)"
proof (intro conjI impI)
  show "list_all (\<lambda>i. \<not> is_featured i \<or> i \<in> set (vehicle_images w)) (vehicle_images w')"
    using dl by (rule downloadImage_never_features)
next
  assume inv: "featured_inv w"
  show "featured_inv w'"
    using inv dl by (rule downloadImage_featured_inv)
  show "featured_inv (snd (downloadAllImages e w))"
    unfolding downloadAllImages_def
    by (rule fold_download_job_featured_inv) (simp add: inv)
next
  assume a: "image_rows_for w vid url = [] \<and> row_by_id w vid = Some row \<and> can_store e vid url body"
  then have new: "image_rows_for w vid url = []" and row: "row_by_id w vid = Some row"
    and ok: "can_store e vid url body"
    by simp_all
  note s = stored_image_recorded [OF dl new row ok]
  show "dl_success r" using s by simp
  show "dl_imageId r = Some (next_image_id w)" using s by simp
  show "vehicle_images w' = vehicle_images w @ [new_image_row e url vid w]" using s by simp
  show "featured_image_of w' vid =
          (if images_of_vehicle w vid = [] then Some (next_image_id w)
           else col_featured_image_id row)"
    using s by simp
  show "\<not> is_featured (new_image_row e url vid w)"
    by (simp add: new_image_row_def)
next
  assume "\<not> dl_success r \<or> image_rows_for w vid url \<noteq> []"
  with dl show "vehicles w' = vehicles w"
    by (rule downloadImage_vehicles_kept)
qed

theorem featured_image_recorded_witness:
  "image_rows_for pending_world 1 ''http://x/th-a.jpg'' = []
   \<and> images_of_vehicle pending_world 1 = []
   \<and> can_store example_env 1 ''http://x/th-a.jpg'' ''bytes''
   \<and> featured_inv pending_world
   \<and> dl_success (fst (downloadImage example_env ''http://x/th-a.jpg'' 1 pending_world))
   \<and> featured_image_of (snd (downloadImage example_env ''http://x/th-a.jpg'' 1 pending_world)) 1
       = Some 1
   \<and> featured_inv (snd (downloadImage example_env ''http://x/th-a.jpg'' 1 pending_world))"
proof -
  have new: "image_rows_for pending_world 1 ''http://x/th-a.jpg'' = []"
    by code_simp
  have none: "images_of_vehicle pending_world 1 = []"
    by code_simp
  have row: "row_by_id pending_world 1 = Some example_row"
    by code_simp
  have ok: "can_store example_env 1 ''http://x/th-a.jpg'' ''bytes''"
    by code_simp
  have inv: "featured_inv pending_world"
    by code_simp
  have nx: "next_image_id pending_world = 1"
    by code_simp
  have res: "downloadImage example_env ''http://x/th-a.jpg'' 1 pending_world
      = (fst (downloadImage example_env ''http://x/th-a.jpg'' 1 pending_world),
         snd (downloadImage example_env ''http://x/th-a.jpg'' 1 pending_world))"
    by simp
  note t = featured_image_recorded [OF res, where row = example_row and body = "''bytes''"]
  have 1: "featured_inv (snd (downloadImage example_env ''http://x/th-a.jpg'' 1 pending_world))"
    using t inv by simp
  have 2: "dl_success (fst (downloadImage example_env ''http://x/th-a.jpg'' 1 pending_world))
      \<and> featured_image_of (snd (downloadImage example_env ''http://x/th-a.jpg'' 1 pending_world)) 1
          = Some 1"
    using t new row ok none nx by simp
  show ?thesis
    using new none ok inv 1 2 by simp
qed

text \<open>
  C10 as stated has \<open>downloadImage\<close> mark the first stored image of a vehicle as
  featured. After the first image of the example vehicle was downloaded and stored, the
  only image row of the vehicle has \<open>is_featured\<close> false, also after the drain of the
  queue, while the \<open>featured_image_id\<close> of the vehicle is the id of that row.
\<close>

theorem first_image_not_marked_counterexample:
  "dl_success (fst (downloadImage example_env ''http://x/th-a.jpg'' 1 pending_world))
   \<and> map is_featured (images_of_vehicle
        (snd (downloadImage example_env ''http://x/th-a.jpg'' 1 pending_world)) 1) = [False]
   \<and> featured_image_of (snd (downloadImage example_env ''http://x/th-a.jpg'' 1 pending_world)) 1
       = Some 1
   \<and> featured_rows (snd (downloadAllImages example_env pending_world)) 1 = []"
  by code_simp

section \<open>Draining the queue is idempotent\<close>

lemma row_by_id_exists:
  "(row_by_id w vid \<noteq> None) = (vid \<in> set (map col_id (vehicles w)))"
  by (auto simp: row_by_id_def find_None_iff)

lemma after_store_ids:
  "map col_id (vehicles (after_store e url vid body w)) = map col_id (vehicles w)"
  by (simp add: after_store_vehicles col_id_auto_touch o_def cong: map_cong)

lemma pending_rows_other:
  "(vid', url') \<noteq> (vid, url)
   \<Longrightarrow> pending_rows_for (delete_pending vid' url' w) vid url = pending_rows_for w vid url"
  by (auto simp: pending_rows_for_def intro!: filter_cong)

lemma pending_rows_after_store:
  "pending_rows_for (after_store e url' vid' body w) vid url = pending_rows_for w vid url"
  by (simp add: pending_rows_for_def)

lemma pending_rows_log:
  "pending_rows_for (w\<lparr>http_log := l\<rparr>) vid url = pending_rows_for w vid url"
  "pending_rows_for (w\<lparr>http_log := l, files := f\<rparr>) vid url = pending_rows_for w vid url"
  by (simp_all add: pending_rows_for_def)

text \<open>A job for another vehicle or another URL leaves the rows and downloads of this one.\<close>

lemma other_job_keeps:
  assumes dl: "downloadImage e url' vid' w = (r, w')"
    and other: "(vid', url') \<noteq> (vid, url)"
  shows "image_rows_for w' vid url = image_rows_for w vid url"
    and "downloads_for w' vid url = downloads_for w vid url"
    and "pending_rows_for w' vid url = pending_rows_for w vid url"
    and "map col_id (vehicles w') = map col_id (vehicles w)"
proof -
  have "image_rows_for w' vid url = image_rows_for w vid url
      \<and> downloads_for w' vid url = downloads_for w vid url
      \<and> pending_rows_for w' vid url = pending_rows_for w vid url
      \<and> map col_id (vehicles w') = map col_id (vehicles w)"
  proof (cases rule: downloadImage_outcomes [of vid' url' w e])
    case (existing i)
    then have "w' = delete_pending vid' url' w"
      using dl by simp
    then show ?thesis
      by (simp add: image_rows_for_def downloads_for_def pending_rows_other [OF other])
  next
    case (no_directory msg)
    then have "w' = w"
      using dl by simp
    then show ?thesis
      by simp
  next
    case (threw msg)
    then have "w' = w\<lparr>http_log := http_log w @ [download_of url' vid']\<rparr>"
      using dl by simp
    then show ?thesis
      using other
      by (auto simp: image_rows_for_def downloads_for_def pending_rows_log download_of_def)
  next
    case (no_vehicle body)
    then have "w' = w\<lparr>http_log := http_log w @ [download_of url' vid'],
              files := write_file (image_file_path e url' vid') body (files w)\<rparr>"
      using dl by simp
    then show ?thesis
      using other
      by (auto simp: image_rows_for_def downloads_for_def pending_rows_log download_of_def)
  next
    case (stored body)
    then have "w' = delete_pending vid' url' (after_store e url' vid' body w)"
      using dl by simp
    then show ?thesis
      using other
      by (auto simp: image_rows_for_def downloads_for_def download_of_def new_image_row_def
          pending_rows_other [OF other] pending_rows_after_store after_store_ids)
  qed
  then show "image_rows_for w' vid url = image_rows_for w vid url"
    and "downloads_for w' vid url = downloads_for w vid url"
    and "pending_rows_for w' vid url = pending_rows_for w vid url"
    and "map col_id (vehicles w') = map col_id (vehicles w)"
    by simp_all
qed

lemma pending_rows_deleted:
  "pending_rows_for (delete_pending vid url w) vid url = []"
  by (simp add: pending_rows_for_def filter_empty_conv)

text \<open>The job itself stores the image once, and finds it stored afterwards.\<close>

lemma same_job_stores:
  assumes dl: "downloadImage e url vid w = (r, w')"
    and ny: "not_yet_stored w vid url n"
    and ok: "can_store e vid url body"
  shows "stored_once w' vid url n"
proof -
  have fn: "find (\<lambda>i. img_vehicle_id i = vid \<and> img_url i = url) (vehicle_images w) = None"
    and no: "image_rows_for w vid url = []"
    and n: "length (downloads_for w vid url) = n"
    using ny by (simp_all add: not_yet_stored_def find_None_image_rows)
  obtain x where x: "row_by_id w vid = Some x"
    using ny by (auto simp: not_yet_stored_def)
  have "w' = delete_pending vid url (after_store e url vid body w)"
    using dl downloadImage_stored [OF fn ok x] by simp
  then show ?thesis
    using no n
    by (simp add: stored_once_def pending_rows_deleted image_rows_for_def downloads_for_def
        download_of_def new_image_row_def)
qed

lemma same_job_satisfied:
  assumes dl: "downloadImage e url vid w = (r, w')"
    and so: "stored_once w vid url n"
  shows "stored_once w' vid url n"
proof -
  have "image_rows_for w vid url \<noteq> []"
    using so by (auto simp: stored_once_def)
  then obtain i where "find (\<lambda>i. img_vehicle_id i = vid \<and> img_url i = url) (vehicle_images w) = Some i"
    using find_None_image_rows [of vid url w] by auto
  then have "w' = delete_pending vid url w"
    using dl downloadImage_existing [of vid url w i e] by simp
  then show ?thesis
    using so
    by (simp add: stored_once_def pending_rows_deleted image_rows_for_def downloads_for_def)
qed

lemma download_job_snd:
  "snd (download_job e job st) = snd (downloadImage e (snd job) (fst job) (snd st))"
  by (cases st, cases "downloadImage e (snd job) (fst job) (snd st)")
     (simp add: download_job_def)

lemma job_keeps_stored_once:
  assumes "stored_once (snd st) vid url n"
  shows "stored_once (snd (download_job e job st)) vid url n"
proof -
  obtain r w' where dl: "downloadImage e (snd job) (fst job) (snd st) = (r, w')"
    by (cases "downloadImage e (snd job) (fst job) (snd st)")
  have "stored_once w' vid url n"
  proof (cases "job = (vid, url)")
    case True
    then show ?thesis
      using same_job_satisfied [of e url vid "snd st" r w' n] dl assms by simp
  next
    case False
    then have o: "(fst job, snd job) \<noteq> (vid, url)"
      by simp
    show ?thesis
      using assms other_job_keeps(1,2,3) [OF dl o] by (simp add: stored_once_def)
  qed
  then show ?thesis
    by (simp add: download_job_snd dl)
qed

lemma job_on_not_yet_stored:
  assumes ny: "not_yet_stored (snd st) vid url n"
    and ok: "can_store e vid url body"
  shows "if job = (vid, url) then stored_once (snd (download_job e job st)) vid url n
         else not_yet_stored (snd (download_job e job st)) vid url n"
proof -
  obtain r w' where dl: "downloadImage e (snd job) (fst job) (snd st) = (r, w')"
    by (cases "downloadImage e (snd job) (fst job) (snd st)")
  have sn: "snd (download_job e job st) = w'"
    by (simp add: download_job_snd dl)
  show ?thesis
  proof (cases "job = (vid, url)")
    case True
    then have "stored_once w' vid url n"
      using same_job_stores [of e url vid "snd st" r w' n body] dl ny ok by simp
    then have "stored_once (snd (download_job e job st)) vid url n"
      by (simp only: sn)
    then show ?thesis
      using True by simp
  next
    case False
    then have o: "(fst job, snd job) \<noteq> (vid, url)"
      by simp
    have "vid \<in> set (map col_id (vehicles (snd st)))"
      using ny by (simp only: not_yet_stored_def row_by_id_exists)
    then have "vid \<in> set (map col_id (vehicles w'))"
      by (simp only: other_job_keeps(4) [OF dl o])
    then have ex: "row_by_id w' vid \<noteq> None"
      by (simp only: row_by_id_exists)
    have "not_yet_stored w' vid url n"
      using ny ex other_job_keeps(1,2) [OF dl o] by (simp add: not_yet_stored_def)
    then have "not_yet_stored (snd (download_job e job st)) vid url n"
      by (simp only: sn)
    then show ?thesis
      using False by simp
  qed
qed

lemma fold_keeps_stored_once:
  "stored_once (snd st) vid url n \<Longrightarrow> stored_once (snd (fold (download_job e) jobs st)) vid url n"
proof (induction jobs arbitrary: st)
  case Nil
  then show ?case by simp
next
  case (Cons job jobs)
  have "stored_once (snd (download_job e job st)) vid url n"
    using Cons.prems by (rule job_keeps_stored_once)
  then have "stored_once (snd (fold (download_job e) jobs (download_job e job st))) vid url n"
    by (rule Cons.IH)
  then show ?case by simp
qed

lemma fold_stores_once:
  assumes ok: "can_store e vid url body"
  shows "not_yet_stored (snd st) vid url n \<Longrightarrow> (vid, url) \<in> set jobs
    \<Longrightarrow> stored_once (snd (fold (download_job e) jobs st)) vid url n"
proof (induction jobs arbitrary: st)
  case Nil
  then show ?case by simp
next
  case (Cons job jobs)
  note step = job_on_not_yet_stored [OF Cons.prems(1) ok, of job]
  show ?case
  proof (cases "job = (vid, url)")
    case True
    then have "stored_once (snd (download_job e job st)) vid url n"
      using step by simp
    then have "stored_once (snd (fold (download_job e) jobs (download_job e job st))) vid url n"
      by (rule fold_keeps_stored_once)
    then show ?thesis by simp
  next
    case False
    then have a: "not_yet_stored (snd (download_job e job st)) vid url n"
      using step by simp
    have b: "(vid, url) \<in> set jobs"
      using Cons.prems(2) False by auto
    have "stored_once (snd (fold (download_job e) jobs (download_job e job st))) vid url n"
      using a b by (rule Cons.IH)
    then show ?thesis by simp
  qed
qed

text \<open>
  C8, as the code has it. If a row of \<open>vehicle_images\<close> for the vehicle and the URL
  exists, \<open>downloadImage\<close> reports success with the id of that row and changes nothing
  but \<open>pending_images\<close>, from which the rows of the vehicle and the URL are removed: no
  download, no insert. And if the queue, whatever else it holds, holds the URL of a
  vehicle once or several times, the vehicle exists, no row for the URL exists yet and
  the image can be stored (the directory of the vehicle exists or can be created, the
  download succeeds and the file can be written), then after the first drain and after
  the second there is exactly one \<open>vehicle_images\<close> row for the vehicle and the URL,
  exactly one download was issued for them, and after the second drain no entry for
  them is pending.
\<close>

theorem duplicate_pending_downloaded_once:
  "(\<forall>i. find (\<lambda>i. img_vehicle_id i = vid \<and> img_url i = url) (vehicle_images w0) = Some i \<longrightarrow>
      downloadImage e url vid w0 =
        (\<lparr>dl_success = True,
          dl_message = ''Imagen ya existe'' @ msg_vehicle @ numToString e (of_nat vid),
          dl_imageId = Some (img_id i)\<rparr>,
         w0\<lparr>pending_images :=
              filter (\<lambda>p. \<not> (pend_vehicle_id p = vid \<and> pend_url p = url)) (pending_images w0)\<rparr>))
   \<and> ((vid, url) \<in> set (getPendingImages w)
        \<and> image_rows_for w vid url = []
        \<and> row_by_id w vid \<noteq> None
        \<and> can_store e vid url body \<longrightarrow>
      length (image_rows_for (snd (downloadAllImages e (snd (downloadAllImages e w)))) vid url) = 1
      \<and> length (downloads_for (snd (downloadAllImages e (snd (downloadAllImages e w)))) vid url)
          = length (downloads_for w vid url) + 1
      \<and> pending_rows_for (snd (downloadAllImages e (snd (downloadAllImages e w)))) vid url = []
      \<and> length (image_rows_for (snd (downloadAllImages e w)) vid url) = 1
      \<and> length (downloads_for (snd (downloadAllImages e w)) vid url)
          = length (downloads_for w vid url) + 1)"
proof (intro conjI allI impI)
  fix i
  assume "find (\<lambda>i. img_vehicle_id i = vid \<and> img_url i = url) (vehicle_images w0) = Some i"
  then show "downloadImage e url vid w0 =
        (\<lparr>dl_success = True,
          dl_message = ''Imagen ya existe'' @ msg_vehicle @ numToString e (of_nat vid),
          dl_imageId = Some (img_id i)\<rparr>,
         w0\<lparr>pending_images :=
              filter (\<lambda>p. \<not> (pend_vehicle_id p = vid \<and> pend_url p = url)) (pending_images w0)\<rparr>)"
    by (simp add: downloadImage_existing delete_pending_def)
next
  assume a: "(vid, url) \<in> set (getPendingImages w)
        \<and> image_rows_for w vid url = []
        \<and> row_by_id w vid \<noteq> None
        \<and> can_store e vid url body"
  let ?n = "length (downloads_for w vid url)"
  let ?w1 = "snd (downloadAllImages e w)"
  let ?w2 = "snd (downloadAllImages e ?w1)"
  have ny: "not_yet_stored w vid url ?n"
    using a by (simp add: not_yet_stored_def)
  have ok: "can_store e vid url body"
    and mem: "(vid, url) \<in> set (getPendingImages w)"
    using a by simp_all
  have 1: "stored_once ?w1 vid url ?n"
    unfolding downloadAllImages_def
    by (rule fold_stores_once [OF ok _ mem]) (simp add: ny)
  have 2: "stored_once ?w2 vid url ?n"
    unfolding downloadAllImages_def [of e ?w1]
    by (rule fold_keeps_stored_once) (simp add: 1)
  show "length (image_rows_for ?w2 vid url) = 1"
    using 2 by (simp add: stored_once_def)
  show "length (downloads_for ?w2 vid url) = ?n + 1"
    using 2 by (simp add: stored_once_def)
  show "pending_rows_for ?w2 vid url = []"
    using 2 by (simp add: stored_once_def)
  show "length (image_rows_for ?w1 vid url) = 1"
    using 1 by (simp add: stored_once_def)
  show "length (downloads_for ?w1 vid url) = ?n + 1"
    using 1 by (simp add: stored_once_def)
qed

theorem duplicate_pending_downloaded_once_witness:
  "length (pending_rows_for twice_world 1 ''http://x/th-a.jpg'') = 2
   \<and> can_store example_env 1 ''http://x/th-a.jpg'' ''bytes''
   \<and> length (image_rows_for (snd (downloadAllImages example_env
        (snd (downloadAllImages example_env twice_world)))) 1 ''http://x/th-a.jpg'') = 1
   \<and> length (downloads_for (snd (downloadAllImages example_env
        (snd (downloadAllImages example_env twice_world)))) 1 ''http://x/th-a.jpg'') = 1"
proof -
  have a: "length (pending_rows_for twice_world 1 ''http://x/th-a.jpg'') = 2"
    by code_simp
  have ok: "can_store example_env 1 ''http://x/th-a.jpg'' ''bytes''"
    by code_simp
  have hyp0: "(1, ''http://x/th-a.jpg'') \<in> set (getPendingImages twice_world)
      \<and> image_rows_for twice_world 1 ''http://x/th-a.jpg'' = []
      \<and> row_by_id twice_world 1 \<noteq> None"
    by code_simp
  have hyp: "(1, ''http://x/th-a.jpg'') \<in> set (getPendingImages twice_world)
      \<and> image_rows_for twice_world 1 ''http://x/th-a.jpg'' = []
      \<and> row_by_id twice_world 1 \<noteq> None
      \<and> can_store example_env 1 ''http://x/th-a.jpg'' ''bytes''"
    using hyp0 ok by (intro conjI) simp_all
  have n: "length (downloads_for twice_world 1 ''http://x/th-a.jpg'') = 0"
    by code_simp
  note t = duplicate_pending_downloaded_once
    [of 1 "''http://x/th-a.jpg''" twice_world example_env twice_world "''bytes''",
     THEN conjunct2, THEN mp, OF hyp]
  have 1: "length (image_rows_for (snd (downloadAllImages example_env
        (snd (downloadAllImages example_env twice_world)))) 1 ''http://x/th-a.jpg'') = 1"
    using t by (rule conjunct1)
  have 2: "length (downloads_for (snd (downloadAllImages example_env
        (snd (downloadAllImages example_env twice_world)))) 1 ''http://x/th-a.jpg'')
       = length (downloads_for twice_world 1 ''http://x/th-a.jpg'') + 1"
    using t by (rule conjunct2 [THEN conjunct1])
  show ?thesis
    using a ok 1 2 n by simp
qed

text \<open>
  C8 as stated has one row and no duplicate download after the same URL was queued
  twice and the queue drained twice. With a download that throws, each drain requests
  the URL once for each of the two entries: after the two drains there is no row for
  the vehicle and the URL, and four downloads were issued for them.
\<close>

theorem failed_download_repeated_counterexample:
  "length (pending_rows_for twice_world 1 ''http://x/th-a.jpg'') = 2
   \<and> image_rows_for (snd (downloadAllImages failing_env
        (snd (downloadAllImages failing_env twice_world)))) 1 ''http://x/th-a.jpg'' = []
   \<and> length (downloads_for (snd (downloadAllImages failing_env twice_world)) 1
        ''http://x/th-a.jpg'') = 2
   \<and> length (downloads_for (snd (downloadAllImages failing_env
        (snd (downloadAllImages failing_env twice_world)))) 1 ''http://x/th-a.jpg'') = 4"
  by code_simp

section \<open>Reconciler: archive and incremental skip\<close>

lemma find_unique:
  "distinct (map f xs) \<Longrightarrow> x \<in> set xs \<Longrightarrow> find (\<lambda>r. f r = f x) xs = Some x"
  by (induction xs) (auto simp: image_iff)

lemma key_iff:
  "distinct (map f xs) \<Longrightarrow> x \<in> set xs \<Longrightarrow> r \<in> set xs \<Longrightarrow> (f r = f x) = (r = x)"
  by (auto simp: distinct_map inj_on_def)

text \<open>
  C9, as the code has it. For a record with an id that the Filter Evaluator rejects and
  whose vehicle exists, \<open>processVehicle\<close> reports the record as filtered and changes
  only the row of that vehicle: \<open>status\<close> becomes \<open>archived\<close>, the \<open>filter_reason\<close>
  bucket of the evaluator's reason is set in the \<open>additional_data\<close> document (an
  unparseable document counts as empty), and \<open>updated_at\<close> becomes the current time.
  Every other column, every other row, \<open>vehicle_images\<close> and the stored files are as
  before. (\<open>id\<close> and \<open>asofix_id\<close> are keys of \<open>vehicles\<close>.)
\<close>

theorem archive_frame:
  assumes id: "av_id v \<noteq> []"
    and om: "omit (shouldOmitVehicle (numToString e) (filterConfig e) v)"
    and d1: "distinct (map col_id (vehicles w))"
    and d2: "distinct (map col_asofix_id (vehicles w))"
    and row: "row \<in> set (vehicles w)" "col_asofix_id row = av_id v" "col_id row \<noteq> 0"
  shows "processVehicle e v incremental w =
           (\<lparr>success = True,
             message = ''FILTRADO: '' @ (case reason (shouldOmitVehicle (numToString e) (filterConfig e) v)
                                           of None \<Rightarrow> ''undefined'' | Some r \<Rightarrow> r),
             vehicleId = None, wasNew = None, wasUpdated = None, filtered = Some True\<rparr>,
            w\<lparr>vehicles :=
                map (\<lambda>r. if col_asofix_id r = av_id v
                          then archived_row e (reason (shouldOmitVehicle (numToString e) (filterConfig e) v)) r
                          else r) (vehicles w)\<rparr>)"
proof -
  let ?rsn = "reason (shouldOmitVehicle (numToString e) (filterConfig e) v)"
  have f: "findVehicleByAsofixId w (av_id v) = Some (col_id row)"
    using find_unique [OF d2 row(1)] row(2) by (simp add: findVehicleByAsofixId_def)
  have rb: "row_by_id w (col_id row) = Some row"
    using find_unique [OF d1 row(1)] by (simp add: row_by_id_def)
  have k: "(col_id r = col_id row) = (col_asofix_id r = av_id v)" if "r \<in> set (vehicles w)" for r
    using key_iff [OF d1 row(1) that] key_iff [OF d2 row(1) that] row(2) by simp
  have "archive_by_filter e (col_id row) ?rsn w
      = w\<lparr>vehicles := map (\<lambda>r. if col_id r = col_id row then
              r\<lparr>col_status := Archived,
                col_additional_data := DObj (set_prop ''filter_reason'' (JStr (filter_bucket ?rsn))
                    (parse_additional_data (col_additional_data row))),
                col_updated_at := Some (clock_now e)\<rparr> else r) (vehicles w)\<rparr>"
    by (simp add: archive_by_filter_def additional_data_of_def rb update_vehicles_def Let_def)
  also have "map (\<lambda>r. if col_id r = col_id row then
              r\<lparr>col_status := Archived,
                col_additional_data := DObj (set_prop ''filter_reason'' (JStr (filter_bucket ?rsn))
                    (parse_additional_data (col_additional_data row))),
                col_updated_at := Some (clock_now e)\<rparr> else r) (vehicles w)
       = map (\<lambda>r. if col_asofix_id r = av_id v then archived_row e ?rsn r else r) (vehicles w)"
  proof (rule map_cong [OF refl])
    fix r assume r: "r \<in> set (vehicles w)"
    show "(if col_id r = col_id row then
              r\<lparr>col_status := Archived,
                col_additional_data := DObj (set_prop ''filter_reason'' (JStr (filter_bucket ?rsn))
                    (parse_additional_data (col_additional_data row))),
                col_updated_at := Some (clock_now e)\<rparr> else r)
        = (if col_asofix_id r = av_id v then archived_row e ?rsn r else r)"
    proof (cases "col_asofix_id r = av_id v")
      case True
      then have "r = row"
        using key_iff [OF d2 row(1) r] row(2) by simp
      then show ?thesis
        using row(2) by (simp add: archived_row_def)
    next
      case False
      then show ?thesis
        using k [OF r] by simp
    qed
  qed
  finally have a: "archive_by_filter e (col_id row) ?rsn w
      = w\<lparr>vehicles := map (\<lambda>r. if col_asofix_id r = av_id v then archived_row e ?rsn r else r)
                          (vehicles w)\<rparr>" .
  show ?thesis
    using id om row(3) by (simp add: processVehicle_def Let_def f id_truthy_def a)
qed

theorem archive_frame_witness:
  "omit (shouldOmitVehicle (numToString example_env) (filterConfig example_env) reserved_vehicle)
   \<and> map col_status (vehicles (snd (processVehicle example_env reserved_vehicle True example_world)))
       = [Archived]
   \<and> map col_additional_data (vehicles (snd (processVehicle example_env reserved_vehicle True example_world)))
       = [DObj [(''filter_reason'', JStr ''no_active_stock'')]]"
proof -
  have id: "av_id reserved_vehicle \<noteq> []"
    by (simp add: reserved_vehicle_def example_vehicle_def)
  have om: "omit (shouldOmitVehicle (numToString example_env) (filterConfig example_env)
      reserved_vehicle)"
    by code_simp
  have d: "distinct (map col_id (vehicles example_world))"
    "distinct (map col_asofix_id (vehicles example_world))"
    by (simp_all add: example_world_def)
  have row: "example_row \<in> set (vehicles example_world)"
    "col_asofix_id example_row = av_id reserved_vehicle" "col_id example_row \<noteq> 0"
    by (simp_all add: example_world_def example_row_def reserved_vehicle_def example_vehicle_def)
  have r: "reason (shouldOmitVehicle (numToString example_env) (filterConfig example_env)
      reserved_vehicle) = Some ''No tiene stock activo''"
    by code_simp
  have b: "filter_bucket (Some ''No tiene stock activo'') = ''no_active_stock''"
    by code_simp
  have v: "vehicles example_world = [example_row]"
    by (simp add: example_world_def)
  have ad: "col_additional_data example_row = DObj []"
    by (simp add: example_row_def)
  show ?thesis
    using archive_frame [OF id om d row, of True] om
    by (simp add: r b v row(2) archived_row_def ad parse_additional_data_def)
qed

text \<open>
  C9 as stated leaves every column other than \<open>status\<close> and \<open>additional_data\<close>
  unchanged. The archive of the example vehicle, last updated at time 5, sets
  \<open>updated_at\<close> to the current time.
\<close>

theorem archive_sets_updated_at_counterexample:
  "omit (shouldOmitVehicle (numToString example_env) (filterConfig example_env) reserved_vehicle)
   \<and> map col_updated_at (vehicles example_world) = [Some 5]
   \<and> map col_updated_at (vehicles (snd (processVehicle example_env reserved_vehicle True example_world)))
       = [Some 1000000000]"
  by code_simp

lemma auto_touch_same:
  "same_but_sync_times r (auto_touch t (\<lambda>r. r\<lparr>col_last_synced_at := x\<rparr>) r)"
  by (simp add: auto_touch_def same_but_sync_times_def)

lemma same_refl: "same_but_sync_times r r"
  by (simp add: same_but_sync_times_def)

lemma reactivated_then_synced:
  "auto_touch (clock_now e) (\<lambda>r. r\<lparr>col_last_synced_at := Some (clock_now e)\<rparr>)
     (r\<lparr>col_status := Published,
        col_additional_data :=
          DObj (delete_if_truthy ''filter_reason'' (parse_additional_data (col_additional_data r))),
        col_updated_at := Some (clock_now e)\<rparr>)
   = reactivated_row e r"
  by (simp add: auto_touch_def reactivated_row_def)

lemma find_map_key:
  "(\<And>x. P (f x) = P x) \<Longrightarrow> find P (map f xs) = map_option f (find P xs)"
  by (induction xs) simp_all

text \<open>
  C6, as the code has it. In incremental mode, for an admissible record whose
  fingerprint equals the stored \<open>version_hash\<close> of its vehicle, \<open>processVehicle\<close>
  reports the record as unchanged, the orchestrator adds the id to the Valid-Set
  Tracker and leaves the counters as they are (the id is not the placeholder
  \<open>ID_DESCONOCIDO\<close>), and nothing outside the table \<open>vehicles\<close> changes. When the
  vehicle is not archived, every row of \<open>vehicles\<close> keeps every column other than
  \<open>last_synced_at\<close> and \<open>updated_at\<close>. When the vehicle is archived (and its id is not
  0), its row is reactivated: \<open>status\<close> becomes \<open>published\<close>, the property
  \<open>filter_reason\<close> is deleted from the \<open>additional_data\<close> document when it is truthy
  (an unparseable document is written as the empty one), \<open>updated_at\<close> and
  \<open>last_synced_at\<close> become the current time; every other column of the row and every
  other row are as before. (\<open>id\<close> and \<open>asofix_id\<close> are keys of \<open>vehicles\<close>.)
\<close>

theorem incremental_skip_frame:
  assumes id: "av_id v \<noteq> []" "av_id v \<noteq> ''ID_DESCONOCIDO''"
    and adm: "\<not> omit (shouldOmitVehicle (numToString e) (filterConfig e) v)"
    and d1: "distinct (map col_id (vehicles w))"
    and d2: "distinct (map col_asofix_id (vehicles w))"
    and row: "row \<in> set (vehicles w)" "col_asofix_id row = av_id v"
    and h: "col_version_hash row = Some (generateVersionHash e v)"
    and res: "processVehicle e v True w = (result, w')"
  shows "result = unchanged_result (av_id v)
       \<and> process_with_retries e (attempt_processVehicle e v True) v 0 (run, w)
           = (tracker_add (av_id v) run, w')
       \<and> w'\<lparr>vehicles := vehicles w\<rparr> = w
       \<and> (col_status row \<noteq> Archived \<longrightarrow>
            list_all2 same_but_sync_times (vehicles w) (vehicles w'))
       \<and> (col_status row = Archived \<and> col_id row \<noteq> 0 \<longrightarrow>
            vehicles w' = map (\<lambda>r. if col_asofix_id r = av_id v then reactivated_row e r else r)
                            (vehicles w))"
proof -
  let ?g = "auto_touch (clock_now e) (\<lambda>r. r\<lparr>col_last_synced_at := Some (clock_now e)\<rparr>)"
  let ?re = "\<lambda>r. r\<lparr>col_status := Published,
        col_additional_data :=
          DObj (delete_if_truthy ''filter_reason'' (parse_additional_data (col_additional_data row))),
        col_updated_at := Some (clock_now e)\<rparr>"
  let ?w1 = "if id_truthy (Some (col_id row)) then reactivate_if_archived e (col_id row) w else w"
  have f: "find (\<lambda>r. col_asofix_id r = av_id v) (vehicles w) = Some row"
    using find_unique [OF d2 row(1)] row(2) by simp
  have rb: "row_by_id w (col_id row) = Some row"
    using find_unique [OF d1 row(1)] by (simp add: row_by_id_def)
  have k: "(col_id r = col_id row) = (col_asofix_id r = av_id v)" if "r \<in> set (vehicles w)" for r
    using key_iff [OF d1 row(1) that] key_iff [OF d2 row(1) that] row(2) by simp
  have w1: "?w1 = (if col_status row = Archived \<and> col_id row \<noteq> 0
                   then w\<lparr>vehicles := map (\<lambda>r. if col_id r = col_id row then ?re r else r) (vehicles w)\<rparr>
                   else w)"
    by (simp add: reactivate_if_archived_def rb id_truthy_def update_vehicles_def Let_def)
  have fk: "find (\<lambda>r. col_asofix_id r = av_id v)
              (map (\<lambda>r. if col_id r = col_id row then ?re r else r) (vehicles w))
          = map_option (\<lambda>r. if col_id r = col_id row then ?re r else r)
              (find (\<lambda>r. col_asofix_id r = av_id v) (vehicles w))"
    by (rule find_map_key) simp
  have nu: "\<not> needsUpdate ?w1 (av_id v) (generateVersionHash e v)"
    using h by (simp add: w1 needsUpdate_def f fk)
  have nu1: "\<not> needsUpdate (reactivate_if_archived e (col_id row) w) (av_id v)
                 (generateVersionHash e v)" if "id_truthy (Some (col_id row))"
    using nu that by simp
  have nu2: "\<not> needsUpdate w (av_id v) (generateVersionHash e v)"
    if "\<not> id_truthy (Some (col_id row))"
    using nu that by simp
  have pv: "processVehicle e v True w =
      (unchanged_result (av_id v), update_vehicles (\<lambda>r. col_asofix_id r = av_id v) ?g ?w1)"
    using id(1) adm nu1 nu2
    by (simp add: processVehicle_def Let_def findVehicleByAsofixId_def f)
  with res have r: "result = unchanged_result (av_id v)"
    and w': "w' = update_vehicles (\<lambda>r. col_asofix_id r = av_id v) ?g ?w1"
    by simp_all
  have fr: "w'\<lparr>vehicles := vehicles w\<rparr> = w"
    unfolding w' w1 update_vehicles_def by simp
  have ar: "after_result e v (unchanged_result (av_id v)) run = tracker_add (av_id v) run"
    using id by (simp add: after_result_def unchanged_result_def Let_def asofixId_of_def id_known_def)
  have pr: "process_with_retries e (attempt_processVehicle e v True) v 0 (run, w)
      = (tracker_add (av_id v) run, w')"
    by (subst process_with_retries.simps)
       (simp add: maxRetries_def attempt_processVehicle_def pv ar w')
  have l: "list_all2 same_but_sync_times (vehicles w) (vehicles w')" if "col_status row \<noteq> Archived"
    using that unfolding w' w1 update_vehicles_def
    by (simp add: list_all2_map2 list_all2_same auto_touch_same same_refl)
  have a: "vehicles w' = map (\<lambda>r. if col_asofix_id r = av_id v then reactivated_row e r else r)
                            (vehicles w)"
    if "col_status row = Archived \<and> col_id row \<noteq> 0"
  proof -
    have "vehicles w' = map (\<lambda>r. if col_asofix_id r = av_id v then ?g r else r)
              (map (\<lambda>r. if col_id r = col_id row then ?re r else r) (vehicles w))"
      using that unfolding w' w1 update_vehicles_def by simp
    also have "\<dots> = map (\<lambda>r. if col_asofix_id r = av_id v then reactivated_row e r else r)
                          (vehicles w)"
      unfolding map_map
    proof (rule map_cong [OF refl])
      fix r assume rin: "r \<in> set (vehicles w)"
      show "((\<lambda>r. if col_asofix_id r = av_id v then ?g r else r)
              \<circ> (\<lambda>r. if col_id r = col_id row then ?re r else r)) r
          = (if col_asofix_id r = av_id v then reactivated_row e r else r)"
      proof (cases "col_asofix_id r = av_id v")
        case True
        then have "r = row"
          using key_iff [OF d2 row(1) rin] row(2) by simp
        then show ?thesis
          using row(2) reactivated_then_synced [of e row] by simp
      next
        case False
        then show ?thesis
          using k [OF rin] by simp
      qed
    qed
    finally show ?thesis .
  qed
  show ?thesis
    using r pr fr l a by blast
qed

theorem incremental_skip_frame_witness:
  "col_version_hash example_row = Some (generateVersionHash example_env example_vehicle)
   \<and> fst (processVehicle example_env example_vehicle True example_world) = unchanged_result ''A1''
   \<and> list_all2 same_but_sync_times (vehicles example_world)
        (vehicles (snd (processVehicle example_env example_vehicle True example_world)))
   \<and> col_status archived_example_row = Archived
   \<and> vehicles (snd (processVehicle example_env example_vehicle True archived_world))
       = [example_row\<lparr>col_updated_at := Some 1000000000, col_last_synced_at := Some 1000000000\<rparr>]"
proof -
  have id: "av_id example_vehicle \<noteq> []" "av_id example_vehicle \<noteq> ''ID_DESCONOCIDO''"
    by (simp_all add: example_vehicle_def)
  have adm: "\<not> omit (shouldOmitVehicle (numToString example_env) (filterConfig example_env)
      example_vehicle)"
    by code_simp
  have d: "distinct (map col_id (vehicles example_world))"
    "distinct (map col_asofix_id (vehicles example_world))"
    by (simp_all add: example_world_def)
  have row: "example_row \<in> set (vehicles example_world)" "col_asofix_id example_row = av_id example_vehicle"
    by (simp_all add: example_world_def example_row_def example_vehicle_def)
  have st: "col_status example_row \<noteq> Archived"
    by (simp add: example_row_def)
  have h: "col_version_hash example_row = Some (generateVersionHash example_env example_vehicle)"
    by code_simp
  have res: "processVehicle example_env example_vehicle True example_world
      = (fst (processVehicle example_env example_vehicle True example_world),
         snd (processVehicle example_env example_vehicle True example_world))"
    by simp
  have a: "av_id example_vehicle = ''A1''"
    by (simp add: example_vehicle_def)
  have d': "distinct (map col_id (vehicles archived_world))"
    "distinct (map col_asofix_id (vehicles archived_world))"
    by (simp_all add: archived_world_def example_world_def)
  have row': "archived_example_row \<in> set (vehicles archived_world)"
    "col_asofix_id archived_example_row = av_id example_vehicle"
    by (simp_all add: archived_world_def example_world_def archived_example_row_def
        example_row_def example_vehicle_def)
  have st': "col_status archived_example_row = Archived \<and> col_id archived_example_row \<noteq> 0"
    by (simp add: archived_example_row_def example_row_def)
  have h': "col_version_hash archived_example_row
      = Some (generateVersionHash example_env example_vehicle)"
    using h by (simp add: archived_example_row_def)
  have res': "processVehicle example_env example_vehicle True archived_world
      = (fst (processVehicle example_env example_vehicle True archived_world),
         snd (processVehicle example_env example_vehicle True archived_world))"
    by simp
  have re: "reactivated_row example_env archived_example_row
      = example_row\<lparr>col_updated_at := Some 1000000000, col_last_synced_at := Some 1000000000\<rparr>"
    by code_simp
  have v: "vehicles archived_world = [archived_example_row]"
    by (simp add: archived_world_def)
  have 1: "fst (processVehicle example_env example_vehicle True example_world)
        = unchanged_result ''A1''
      \<and> list_all2 same_but_sync_times (vehicles example_world)
        (vehicles (snd (processVehicle example_env example_vehicle True example_world)))"
    using incremental_skip_frame [OF id adm d row h res, of example_run] st a by simp
  have 2: "vehicles (snd (processVehicle example_env example_vehicle True archived_world))
       = [example_row\<lparr>col_updated_at := Some 1000000000, col_last_synced_at := Some 1000000000\<rparr>]"
    using incremental_skip_frame [OF id adm d' row' h' res', of example_run] st' row'(2)
    by (simp add: v re)
  show ?thesis
    using h st' 1 2 by simp
qed

text \<open>
  C6 as stated holds for every admissible record with an equal fingerprint. For an
  archived vehicle whose stored fingerprint equals that of the admissible record, the
  incremental run sets the status back to \<open>published\<close>.
\<close>

theorem incremental_skip_archived_counterexample:
  "\<not> omit (shouldOmitVehicle (numToString example_env) (filterConfig example_env) example_vehicle)
   \<and> map col_version_hash (vehicles archived_world)
       = [Some (generateVersionHash example_env example_vehicle)]
   \<and> map col_status (vehicles archived_world) = [Archived]
   \<and> map col_status (vehicles (snd (processVehicle example_env example_vehicle True archived_world)))
       = [Published]"
  by code_simp

section \<open>Cleanup: recheck of a candidate\<close>

lemma get_prop_set_prop:
  "get_prop (set_prop k x kv) k' = (if k' = k then Some x else get_prop kv k')"
  by (induction kv) (auto simp: get_prop_def)

lemma find_map_update:
  "distinct (map k xs) \<Longrightarrow> x \<in> set xs \<Longrightarrow> k (f x) = k x
   \<Longrightarrow> find (\<lambda>r. k r = k x) (map (\<lambda>r. if k r = k x then f r else r) xs) = Some (f x)"
  by (induction xs) (auto simp: image_iff)

lemma candidate_props:
  assumes "c \<in> set (cleanup_candidates e run w)"
  shows "c \<in> set (vehicles w)" "\<not> updated_recently e c" "col_status c = Published"
    "col_asofix_id c \<notin> set (validVehicleIds run)"
proof -
  have m: "c \<in> set (filter (\<lambda>r. col_status r = Published
                   \<and> col_asofix_id r \<notin> set (validVehicleIds run)
                   \<and> (case col_updated_at r of
                         None \<Rightarrow> True
                       | Some u \<Rightarrow> u < clock_now e - hours48))
               (vehicles w))"
    using assms unfolding cleanup_candidates_def by (rule in_set_takeD)
  then show "c \<in> set (vehicles w)" "col_status c = Published"
    "col_asofix_id c \<notin> set (validVehicleIds run)"
    by simp_all
  from m show "\<not> updated_recently e c"
    by (auto simp: updated_recently_def split: option.splits)
qed

lemma archive_by_cleanup_archived_with:
  assumes d1: "distinct (map col_id (vehicles w))" and c: "c \<in> set (vehicles w)"
  shows "archived_with (archive_by_cleanup e (col_id c) why w) (col_id c) why"
proof -
  let ?f = "\<lambda>r. r\<lparr>col_status := Archived,
       col_additional_data := DObj (set_prop ''archived_at'' (JStr (toISOString e (clock_now e)))
              (set_prop ''cleanup_verification'' (JStr why)
                 (set_prop ''filter_reason'' (JStr ''not_in_valid_set'')
                    (additional_data_of w (col_id c))))),
       col_updated_at := Some (clock_now e)\<rparr>"
  have "row_by_id (archive_by_cleanup e (col_id c) why w) (col_id c) = Some (?f c)"
    using find_map_update [OF d1 c, of ?f]
    by (simp add: row_by_id_def archive_by_cleanup_def update_vehicles_def Let_def)
  then show ?thesis
    by (simp add: archived_with_def parse_additional_data_def get_prop_set_prop)
qed

text \<open>
  With an API key and a plate the point lookup never throws: the errors of its page
  requests are caught inside it, and when every page request fails it reports that
  nothing was found.
\<close>

lemma lookup_returns_with_key:
  "apiKey e \<noteq> [] \<Longrightarrow> trim plate \<noteq> []
   \<Longrightarrow> getVehicleByLicensePlate e plate
       = Returned (search_pages e (toUpperCase (trim plate)) 1 0 0)"
  by (auto simp: getVehicleByLicensePlate_def trim_Nil)

lemma search_pages_all_errors:
  "(\<forall>page. \<exists>msg. getVehiclesPage e page 100 = Threw msg)
   \<Longrightarrow> search_pages e plate currentPage pagesSearched consecutiveErrors = None"
proof (induction e plate currentPage pagesSearched consecutiveErrors rule: search_pages.induct)
  case (1 e plate currentPage pagesSearched consecutiveErrors)
  obtain msg where m: "getVehiclesPage e currentPage 100 = Threw msg"
    using 1(3) by blast
  show ?case
    using 1 m by (subst search_pages.simps) simp
qed

lemma lookup_throws_without_key:
  "trim plate \<noteq> [] \<Longrightarrow> getVehicleByLicensePlate e plate = Threw msg \<Longrightarrow> apiKey e = []"
  by (auto simp: getVehicleByLicensePlate_def trim_Nil split: if_splits)

lemma lookup_all_errors:
  assumes "apiKey e \<noteq> []" and "trim plate \<noteq> []"
    and "\<forall>page. \<exists>msg. api_page e page 100 = Threw msg"
  shows "getVehicleByLicensePlate e plate = Returned None"
proof -
  have "\<forall>page. \<exists>msg. getVehiclesPage e page 100 = Threw msg"
    using assms(1,3) by (simp add: getVehiclesPage_def)
  then show ?thesis
    using lookup_returns_with_key [OF assms(1,2)] search_pages_all_errors by simp
qed

text \<open>
  C3, as the code has it. A cleanup candidate with the flag \<open>keep_published\<close> is kept
  without a lookup: the store is unchanged and the id is added to the tracker.
  Otherwise a candidate without license plate, or with a blank one, is archived with
  \<open>sin_license_plate\<close>, without a lookup. Otherwise the cleanup looks the plate up and:
  found with the id of the candidate and admissible, the store is unchanged and the id
  is added to the tracker; found with that id and not admissible, the vehicle is
  archived with \<open>filtrado_en_api\<close> and the evaluator's reason; not found, or found under
  another id, it is archived with \<open>no_encontrado_en_api\<close>; the lookup throws, which it
  does only without an API key, it is archived with \<open>error_consulta_api\<close> and the
  message. With an API key, when every page request of the lookup fails, the candidate
  is archived with \<open>no_encontrado_en_api\<close>. (\<open>id\<close> is the key of \<open>vehicles\<close>.)
\<close>

theorem cleanup_recheck_cases:
  assumes d1: "distinct (map col_id (vehicles w))"
    and cand: "c \<in> set (cleanup_candidates e run w)"
    and res: "cleanup_one e c (run, w) = (run', w')"
  shows
    "if get_prop (parse_additional_data (col_additional_data c)) ''keep_published''
          = Some (JBool True) then
       w' = w \<and> run' = tracker_add (col_asofix_id c) run
     else if blank_plate (col_license_plate c) then
       archived_with w' (col_id c) ''sin_license_plate''
       \<and> run' = run\<lparr>fase1Archived := fase1Archived run + 1\<rparr>
     else
       (case getVehicleByLicensePlate e (or_else (col_license_plate c) []) of
          Returned (Some apiVehicle) \<Rightarrow>
            if av_id apiVehicle = col_asofix_id c then
              if \<not> omit (shouldOmitVehicle (numToString e) (filterConfig e) apiVehicle) then
                w' = w \<and> run' = tracker_add (col_asofix_id c) run
              else
                archived_with w' (col_id c)
                  (''filtrado_en_api: ''
                   @ (case reason (shouldOmitVehicle (numToString e) (filterConfig e) apiVehicle)
                      of None \<Rightarrow> ''undefined'' | Some r \<Rightarrow> r))
                \<and> run' = run\<lparr>fase1Archived := fase1Archived run + 1\<rparr>
            else
              archived_with w' (col_id c) ''no_encontrado_en_api''
              \<and> run' = run\<lparr>fase1Archived := fase1Archived run + 1\<rparr>
        | Returned None \<Rightarrow>
            archived_with w' (col_id c) ''no_encontrado_en_api''
            \<and> run' = run\<lparr>fase1Archived := fase1Archived run + 1\<rparr>
        | Threw msg \<Rightarrow>
            apiKey e = []
            \<and> archived_with w' (col_id c) (''error_consulta_api: '' @ msg)
            \<and> run' = run\<lparr>fase1Archived := fase1Archived run + 1\<rparr>)
       \<and> (apiKey e \<noteq> [] \<and> (\<forall>page. \<exists>msg. api_page e page 100 = Threw msg) \<longrightarrow>
            archived_with w' (col_id c) ''no_encontrado_en_api'')"
proof -
  let ?lp = "col_license_plate c"
  let ?plate = "or_else ?lp []"
  note cp = candidate_props [OF cand]
  have rb: "row_by_id w (col_id c) = Some c"
    using find_unique [OF d1 cp(1)] by (simp add: row_by_id_def)
  note aw = archive_by_cleanup_archived_with [OF d1 cp(1), of e]
  show ?thesis
  proof (cases "get_prop (parse_additional_data (col_additional_data c)) ''keep_published''
          = Some (JBool True)")
    case True
    then show ?thesis
      using res by (auto simp: cleanup_one_def rb additional_data_of_def Let_def)
  next
    case nk: False
    have co: "cleanup_one e c (run, w) =
        (case recheck e (col_asofix_id c) ?lp of
           (shouldArchive, verificationReason) \<Rightarrow>
              if shouldArchive then
                (run\<lparr>fase1Archived := fase1Archived run + 1\<rparr>,
                 archive_by_cleanup e (col_id c) verificationReason w)
              else (tracker_add (col_asofix_id c) run, w))"
      using nk cp(2) by (simp add: cleanup_one_def rb additional_data_of_def Let_def)
    have arch: "archived_with w' (col_id c) why
         \<and> run' = run\<lparr>fase1Archived := fase1Archived run + 1\<rparr>"
      if "recheck e (col_asofix_id c) ?lp = (True, why)" for why
    proof -
      have "w' = archive_by_cleanup e (col_id c) why w"
        and "run' = run\<lparr>fase1Archived := fase1Archived run + 1\<rparr>"
        using res that by (simp_all add: co)
      then show ?thesis
        using aw [of why] by simp
    qed
    show ?thesis
    proof (cases "blank_plate ?lp")
      case True
      then have "recheck e (col_asofix_id c) ?lp = (True, ''sin_license_plate'')"
        by (auto simp: recheck_def blank_plate_def)
      from arch [OF this] show ?thesis
        using nk True by simp
    next
      case nb: False
      then have tr: "truthy ?lp \<and> 0 < length (trim ?plate)"
        by (simp add: blank_plate_def)
      then have tp: "trim ?plate \<noteq> []"
        by auto
      have main: "case getVehicleByLicensePlate e ?plate of
          Returned (Some apiVehicle) \<Rightarrow>
            if av_id apiVehicle = col_asofix_id c then
              if \<not> omit (shouldOmitVehicle (numToString e) (filterConfig e) apiVehicle) then
                w' = w \<and> run' = tracker_add (col_asofix_id c) run
              else
                archived_with w' (col_id c)
                  (''filtrado_en_api: ''
                   @ (case reason (shouldOmitVehicle (numToString e) (filterConfig e) apiVehicle)
                      of None \<Rightarrow> ''undefined'' | Some r \<Rightarrow> r))
                \<and> run' = run\<lparr>fase1Archived := fase1Archived run + 1\<rparr>
            else
              archived_with w' (col_id c) ''no_encontrado_en_api''
              \<and> run' = run\<lparr>fase1Archived := fase1Archived run + 1\<rparr>
        | Returned None \<Rightarrow>
            archived_with w' (col_id c) ''no_encontrado_en_api''
            \<and> run' = run\<lparr>fase1Archived := fase1Archived run + 1\<rparr>
        | Threw msg \<Rightarrow>
            apiKey e = []
            \<and> archived_with w' (col_id c) (''error_consulta_api: '' @ msg)
            \<and> run' = run\<lparr>fase1Archived := fase1Archived run + 1\<rparr>"
      proof (cases "getVehicleByLicensePlate e ?plate")
        case (Threw msg)
        then have "recheck e (col_asofix_id c) ?lp = (True, ''error_consulta_api: '' @ msg)"
          using tr by (simp add: recheck_def)
        from arch [OF this] show ?thesis
          using Threw lookup_throws_without_key [OF tp Threw] by simp
      next
        case (Returned found)
        show ?thesis
        proof (cases found)
          case None
          then have "recheck e (col_asofix_id c) ?lp = (True, ''no_encontrado_en_api'')"
            using tr Returned by (simp add: recheck_def)
          from arch [OF this] show ?thesis
            using Returned None by simp
        next
          case (Some apiVehicle)
          show ?thesis
          proof (cases "av_id apiVehicle = col_asofix_id c")
            case False
            then have "recheck e (col_asofix_id c) ?lp = (True, ''no_encontrado_en_api'')"
              using tr Returned Some by (simp add: recheck_def)
            from arch [OF this] show ?thesis
              using Returned Some False by simp
          next
            case True
            show ?thesis
            proof (cases "omit (shouldOmitVehicle (numToString e) (filterConfig e) apiVehicle)")
              case om: True
              then have "recheck e (col_asofix_id c) ?lp =
                  (True, ''filtrado_en_api: ''
                     @ (case reason (shouldOmitVehicle (numToString e) (filterConfig e) apiVehicle)
                        of None \<Rightarrow> ''undefined'' | Some r \<Rightarrow> r))"
                using tr Returned Some True by (simp add: recheck_def Let_def)
              from arch [OF this] show ?thesis
                using Returned Some True om by simp
            next
              case adm: False
              then have "recheck e (col_asofix_id c) ?lp = (False, ''valido_en_api'')"
                using tr Returned Some True by (simp add: recheck_def Let_def)
              then show ?thesis
                using res Returned Some True adm by (auto simp: co)
            qed
          qed
        qed
      qed
      have off: "archived_with w' (col_id c) ''no_encontrado_en_api''"
        if "apiKey e \<noteq> [] \<and> (\<forall>page. \<exists>msg. api_page e page 100 = Threw msg)"
      proof -
        have "getVehicleByLicensePlate e ?plate = Returned None"
          using that lookup_all_errors [OF _ tp] by simp
        then show ?thesis
          using main by simp
      qed
      show ?thesis
        using nk nb main off by simp
    qed
  qed
qed

theorem cleanup_recheck_cases_witness:
  "example_row \<in> set (cleanup_candidates feed_env tracking_run example_world)
   \<and> getVehicleByLicensePlate feed_env ''AB123CD'' = Returned (Some example_vehicle)
   \<and> cleanup_one feed_env example_row (tracking_run, example_world)
       = (tracker_add ''A1'' tracking_run, example_world)
   \<and> example_row \<in> set (cleanup_candidates offline_env tracking_run example_world)
   \<and> archived_with (snd (cleanup_one offline_env example_row (tracking_run, example_world))) 1
        ''no_encontrado_en_api''"
proof -
  have d1: "distinct (map col_id (vehicles example_world))"
    by (simp add: example_world_def)
  have cand: "example_row \<in> set (cleanup_candidates feed_env tracking_run example_world)"
    by code_simp
  have cand2: "example_row \<in> set (cleanup_candidates offline_env tracking_run example_world)"
    by code_simp
  have nk: "get_prop (parse_additional_data (col_additional_data example_row)) ''keep_published''
      \<noteq> Some (JBool True)"
    by code_simp
  have nb: "\<not> blank_plate (col_license_plate example_row)"
    by code_simp
  have lp: "or_else (col_license_plate example_row) [] = ''AB123CD''"
    by code_simp
  have res: "cleanup_one feed_env example_row (tracking_run, example_world)
      = (fst (cleanup_one feed_env example_row (tracking_run, example_world)),
         snd (cleanup_one feed_env example_row (tracking_run, example_world)))"
    by simp
  have res2: "cleanup_one offline_env example_row (tracking_run, example_world)
      = (fst (cleanup_one offline_env example_row (tracking_run, example_world)),
         snd (cleanup_one offline_env example_row (tracking_run, example_world)))"
    by simp
  have lk: "getVehicleByLicensePlate feed_env ''AB123CD'' = Returned (Some example_vehicle)"
    by code_simp
  have adm: "\<not> omit (shouldOmitVehicle (numToString feed_env) (filterConfig feed_env) example_vehicle)"
    by code_simp
  have av: "av_id example_vehicle = col_asofix_id example_row" "col_asofix_id example_row = ''A1''"
    "col_id example_row = 1"
    by code_simp+
  have off: "apiKey offline_env \<noteq> [] \<and> (\<forall>page. \<exists>msg. api_page offline_env page 100 = Threw msg)"
    by (simp add: offline_env_def example_env_def)
  have 1: "cleanup_one feed_env example_row (tracking_run, example_world)
       = (tracker_add ''A1'' tracking_run, example_world)"
    using cleanup_recheck_cases [OF d1 cand res] nk nb lp lk adm av
    by (simp add: prod_eq_iff)
  have 2: "archived_with (snd (cleanup_one offline_env example_row (tracking_run, example_world))) 1
        ''no_encontrado_en_api''"
    using cleanup_recheck_cases [OF d1 cand2 res2] nk nb off av(3) by simp
  show ?thesis
    using cand cand2 lk 1 2 by simp
qed

text \<open>
  C3 as stated resolves every candidate by a lookup, and archives with the reason of
  a failed recheck when the lookup meets an error. A candidate with the flag
  \<open>keep_published\<close> that the API does not have is not archived, and its id is added
  to the tracker; a candidate without license plate is archived with the reason
  \<open>sin_license_plate\<close>, with no lookup; and when the page requests of the lookup time
  out, the candidate is archived with the reason \<open>no_encontrado_en_api\<close>.
\<close>

theorem cleanup_recheck_counterexample:
  "cleanup_candidates example_env tracking_run keep_world = vehicles keep_world
   \<and> getVehicleByLicensePlate example_env ''AB123CD'' = Returned None
   \<and> cleanup_phase example_env (tracking_run, keep_world)
       = (tracking_run\<lparr>validVehicleIds := [''Z9'', ''A1'']\<rparr>, keep_world)
   \<and> cleanup_candidates example_env tracking_run noplate_world = vehicles noplate_world
   \<and> archived_with (snd (cleanup_phase example_env (tracking_run, noplate_world))) 1
        ''sin_license_plate''
   \<and> getVehiclesPage offline_env 1 100 = Threw ''ETIMEDOUT''
   \<and> archived_with (snd (cleanup_phase offline_env (tracking_run, example_world))) 1
        ''no_encontrado_en_api''"
  by code_simp

section \<open>The tracker only grows within a record\<close>

lemma tracker_add_mono:
  "x \<in> set (validVehicleIds run) \<Longrightarrow> x \<in> set (validVehicleIds (tracker_add y run))"
  by (simp add: tracker_add_def)

lemma keep_if_admissible_mono:
  "x \<in> set (validVehicleIds run) \<Longrightarrow> x \<in> set (validVehicleIds (keep_if_admissible e v run))"
  by (simp add: keep_if_admissible_def tracker_add_mono)

lemma after_result_mono:
  "x \<in> set (validVehicleIds run) \<Longrightarrow> x \<in> set (validVehicleIds (after_result e v result run))"
  by (simp add: after_result_def Let_def keep_if_admissible_mono tracker_add_mono)

lemma process_with_retries_mono:
  "x \<in> set (validVehicleIds (fst st))
   \<Longrightarrow> x \<in> set (validVehicleIds (fst (process_with_retries e attempt v n st)))"
proof (induction e attempt v n st rule: process_with_retries.induct)
  case (1 e attempt v retryCount st)
  obtain run w where st: "st = (run, w)"
    by (cases st)
  obtain r w1 where a: "attempt retryCount w = (r, w1)"
    by (cases "attempt retryCount w")
  show ?case
  proof (cases "retryCount < maxRetries")
    case False
    then show ?thesis
      using 1(3) by (subst process_with_retries.simps) (simp add: st)
  next
    case True
    show ?thesis
    proof (cases r)
      case (Returned result)
      then show ?thesis
        using 1(3) True a by (subst process_with_retries.simps) (simp add: st after_result_mono)
    next
      case (Threw msg)
      show ?thesis
      proof (cases "retryCount + 1 \<ge> maxRetries")
        case t: True
        have "x \<in> set (validVehicleIds (fst (process_with_retries e attempt v (retryCount + 1)
            (keep_if_admissible e v (run\<lparr>fase1Errors := fase1Errors run + 1\<rparr>), w1))))"
          using 1(3) by (intro 1(1) [OF st [symmetric] True a [symmetric] Threw t])
            (simp add: st keep_if_admissible_mono)
        then show ?thesis
          using True a Threw t by (subst process_with_retries.simps) (simp add: st)
      next
        case f: False
        have "x \<in> set (validVehicleIds (fst (process_with_retries e attempt v (retryCount + 1) (run, w1))))"
          using 1(3) by (intro 1(2) [OF st [symmetric] True a [symmetric] Threw f]) (simp add: st)
        then show ?thesis
          using True a Threw f by (subst process_with_retries.simps) (simp add: st)
      qed
    qed
  qed
qed

end
